theory Spec2Isabelle
  imports Complex_Main "HOL-Library.AList" "HOL-Library.Log_Nat"
begin

section \<open>Data model of the component system\<close>

text \<open>
  The development embeds the first \<^verbatim>\<open>ComponentSystem\<close> class of the editor (the one with the
  play / pause / stop clock) together with its built-in \<^verbatim>\<open>Script\<close> component class.

  \<^item> Entity ids are the strings the scene manager hands out (\<^verbatim>\<open>object_1\<close>, ...).
  \<^item> A JavaScript \<^verbatim>\<open>Map\<close> iterates in insertion order, \<^verbatim>\<open>set\<close> on a present key keeps its
    place and \<^verbatim>\<open>set\<close> on a new key appends: an association list with \<open>map_of\<close>,
    \<open>AList.update\<close> and \<open>AList.delete\<close>.
  \<^item> Timestamps are readings of \<^verbatim>\<open>performance.now()\<close> in milliseconds, passed in as the
    argument \<open>now\<close>. A number of the code is the real number it denotes, and every
    arithmetic operation of the code rounds its exact result to the nearest double
    (\<open>double\<close> below). The clock stays far from the subnormal and the overflow range, and
    neither is modelled.
  \<^item> A user hook (\<^verbatim>\<open>start\<close>, \<^verbatim>\<open>update\<close>, \<^verbatim>\<open>onDestroy\<close>) and a method of a non-script
    component are opaque: all that is recorded of a call is that it happened and whether it
    returned or threw. Neither a hook nor a script text, while it runs, calls back into the
    component system.
  \<^item> What a script text does to its own instance and context while \<^verbatim>\<open>compileScript\<close> runs
    it is part of the model, as far as the code reads it later: the slots \<^verbatim>\<open>this.context\<close>,
    \<^verbatim>\<open>this.start\<close>, \<^verbatim>\<open>this.update\<close>, \<^verbatim>\<open>this.onDestroy\<close>, the three hook names, and whether
    the context still takes the writes and the call the code makes on it.
  \<^item> What a hook does to its own instance and context is not followed from one call of the
    code to the next. Every statement below is about one call of the code, made in an
    arbitrary state of the instances and their contexts, and so covers the state an earlier
    hook has left.
  \<^item> Every observable call, console line and bus emission is appended to the \<open>trace\<close> of
    the system, in the order in which the code performs it.
  \<^item> The editor singleton exists; of the editor the system records the mode
    (\<^verbatim>\<open>editor.editorMode\<close>) and the ids of the objects of the scene.
\<close>

type_synonym entity_id = string

datatype outcome = Returns | Throws

text \<open>
  What the JavaScript engine makes of a script text once it is wrapped by \<^verbatim>\<open>compileScript\<close>.
  Either \<^verbatim>\<open>new Function\<close> rejects it (\<open>SyntaxError\<close>), or the compiled function is run with
  \<^verbatim>\<open>this\<close> bound to the new instance and with the context as its scope
  (\<^verbatim>\<open>with(context)\<close>). Of such a run the code can later observe
  \<^item> whether it ended in a throw;
  \<^item> what it left in the slots of the instance: \<^verbatim>\<open>this.context\<close> still truthy or not,
    and a function or not in \<^verbatim>\<open>this.start\<close>, \<^verbatim>\<open>this.update\<close>, \<^verbatim>\<open>this.onDestroy\<close>
    (a text may assign them: \<^verbatim>\<open>this.update = function(){}\<close>);
  \<^item> whether \<^verbatim>\<open>context.start\<close>, \<^verbatim>\<open>context.update\<close>, \<^verbatim>\<open>context.onDestroy\<close> are functions
    once the text and the three statements after it have run to the end;
  \<^item> what it left of the context: a text that rebinds a name of the context
    (\<^verbatim>\<open>var time = 0\<close> inside \<^verbatim>\<open>with(context)\<close> assigns \<^verbatim>\<open>context.time\<close>) makes the later
    writes to \<^verbatim>\<open>context.time.time\<close> and \<^verbatim>\<open>context.time.deltaTime\<close>, the call
    \<^verbatim>\<open>context.time.getTime()\<close>, or the writes to \<^verbatim>\<open>context.gameObject\<close> and
    \<^verbatim>\<open>context.this.gameObject\<close> throw (the classes are strict code).
\<close>

record run_effect =
  threw :: bool
  this_context :: bool
  this_start :: "outcome option"
  this_update :: "outcome option"
  this_onDestroy :: "outcome option"
  fn_start :: "outcome option"
  fn_update :: "outcome option"
  fn_onDestroy :: "outcome option"
  on_time_write :: outcome
  on_getTime :: outcome
  on_object_write :: outcome

datatype js_result = SyntaxError | Ran run_effect

type_synonym js_engine = "string \<Rightarrow> js_result"

text \<open>
  The context of an instance: the scene object and the two time fields, and what the
  three kinds of access of the code do on it: the writes of \<^verbatim>\<open>time.time\<close> and
  \<^verbatim>\<open>time.deltaTime\<close>, the call \<^verbatim>\<open>time.getTime()\<close>, the writes of \<^verbatim>\<open>gameObject\<close>. A call of
  \<^verbatim>\<open>getTime\<close> that returns is the one of \<^verbatim>\<open>createScriptContext\<close>, which reads the clock of
  the component system.
\<close>

record script_context =
  gameObject :: "entity_id option"
  time_deltaTime :: real
  time_time :: real
  time_writes :: outcome
  time_getTime :: outcome
  object_writes :: outcome

text \<open>The instance; \<open>ctx\<close> is \<open>None\<close> when the text has left nothing truthy in \<^verbatim>\<open>this.context\<close>.\<close>

record script_instance =
  ctx :: "script_context option"
  inst_start :: "outcome option"
  inst_update :: "outcome option"
  inst_onDestroy :: "outcome option"

record data_fields =
  d_scriptName :: "string option"
  d_scriptCode :: "string option"
  d_enabled :: "bool option"
  d_variables :: "(string \<times> int) list option"
  d_props :: "(string \<times> int) list"

datatype js_data = Undefined | Null | Obj data_fields

text \<open>The default parameter \<^verbatim>\<open>data = {}\<close>: it replaces \<^verbatim>\<open>undefined\<close> and nothing else.\<close>

definition empty_data :: data_fields where
  "empty_data = \<lparr>d_scriptName = None, d_scriptCode = None, d_enabled = None,
                  d_variables = None, d_props = []\<rparr>"

definition default_data :: "js_data \<Rightarrow> js_data" where
  "default_data data = (case data of Undefined \<Rightarrow> Obj empty_data | _ \<Rightarrow> data)"

record script =
  s_ref :: nat
  entity :: entity_id
  scriptName :: string
  scriptCode :: string
  scriptInstance :: "script_instance option"
  enabled :: bool
  variables :: "(string \<times> int) list"

text \<open>
  A component of any other class (the built-in Collider and Light, or a class a plugin
  registered): the data it was built from, and for \<^verbatim>\<open>update\<close> and \<^verbatim>\<open>destroy\<close> whether the
  object has such a method and what calling it does.
\<close>

record native =
  n_ref :: nat
  n_entity :: entity_id
  n_data :: js_data
  n_update :: "outcome option"
  n_destroy :: "outcome option"

datatype component = Script script | Native native

datatype component_class =
    ScriptClass
  | NativeClass "js_data \<Rightarrow> bool" "outcome option" "outcome option"

datatype error =
    TypeNotFound string
  | ConstructorError entity_id
  | UpdateError entity_id string
  | DestroyError entity_id string
  | ContextError entity_id

datatype hook_name = HStart | HUpdate | HOnDestroy

datatype msg =
    CompiledOk entity_id
  | CompileFailed entity_id
  | UpdateFailed entity_id
  | StartFailed entity_id
  | StopFailed entity_id
  | DestroyFailed entity_id
  | NoObject entity_id
  | AlreadyHas entity_id string
  | NotFound string entity_id
  | Added string entity_id
  | Removed string entity_id

datatype event =
    UpdateCalled entity_id string real
  | HookCalled entity_id hook_name
  | DestroyCalled entity_id string
  | ConsoleLog msg
  | ConsoleWarn msg
  | ConsoleError msg
  | Emitted string entity_id string component

record system =
  componentTypes :: "(string \<times> component_class) list"
  entityComponents :: "(entity_id \<times> (string \<times> component) list) list"
  scriptStartTime :: real
  scriptPauseTime :: real
  totalPausedTime :: real
  updateableComponents :: "nat list"
  editorMode :: string
  sceneObjects :: "entity_id list"
  nextRef :: nat
  trace :: "event list"

definition COMPONENT_ADDED :: string where
  "COMPONENT_ADDED = ''component:added''"

definition COMPONENT_REMOVED :: string where
  "COMPONENT_REMOVED = ''component:removed''"

section \<open>Numbers\<close>

text \<open>
  Rounding to the nearest double, ties to the even mantissa. \<open>binade x\<close> is the exponent
  \<open>e\<close> with \<open>2 powi e \<le> x < 2 powi (e + 1)\<close>, found from the bit length of the integer part
  of \<open>x\<close> (or of \<open>1 / x\<close> below 1); the mantissa has 53 bits, so the spacing of the doubles
  around \<open>x\<close> is \<open>2 powi (e - 52)\<close>.
\<close>

definition rhe :: "real \<Rightarrow> int" where
  "rhe y =
     (let n = \<lfloor>y\<rfloor>; f = y - of_int n
      in if f < 1 / 2 then n else if 1 / 2 < f then n + 1 else if even n then n else n + 1)"

definition binade :: "real \<Rightarrow> int" where
  "binade x = (if 1 \<le> x then bitlen \<lfloor>x\<rfloor> - 1 else - bitlen (\<lceil>1 / x\<rceil> - 1))"

definition double :: "real \<Rightarrow> real" where
  "double x =
     (if x = 0 then 0
      else sgn x * of_int (rhe (\<bar>x\<bar> * 2 powi (52 - binade \<bar>x\<bar>))) * 2 powi (binade \<bar>x\<bar> - 52))"

text \<open>The operators \<^verbatim>\<open>+\<close>, \<^verbatim>\<open>-\<close> and \<^verbatim>\<open>/\<close> of the code on numbers.\<close>

definition js_add :: "real \<Rightarrow> real \<Rightarrow> real" where
  "js_add x y = double (x + y)"

definition js_sub :: "real \<Rightarrow> real \<Rightarrow> real" where
  "js_sub x y = double (x - y)"

definition js_div :: "real \<Rightarrow> real \<Rightarrow> real" where
  "js_div x y = double (x / y)"

section \<open>The playback clock\<close>

text \<open>\<^verbatim>\<open>time.getTime\<close> of a script context: zero while \<^verbatim>\<open>scriptStartTime\<close> is falsy.\<close>

definition getTime :: "real \<Rightarrow> system \<Rightarrow> real" where
  "getTime now s =
     (if scriptStartTime s \<noteq> 0
      then js_div (js_sub (js_sub now (scriptStartTime s)) (totalPausedTime s)) 1000
      else 0)"

definition pauseScriptExecution :: "real \<Rightarrow> system \<Rightarrow> system" where
  "pauseScriptExecution now s = s\<lparr>scriptPauseTime := now\<rparr>"

definition resumeScriptExecution :: "real \<Rightarrow> system \<Rightarrow> system" where
  "resumeScriptExecution now s =
     (if scriptPauseTime s > 0
      then s\<lparr>totalPausedTime := js_add (totalPausedTime s) (js_sub now (scriptPauseTime s)),
             scriptPauseTime := 0\<rparr>
      else s)"

section \<open>The Script component class\<close>

definition createScriptContext :: "entity_id list \<Rightarrow> entity_id \<Rightarrow> script_context" where
  "createScriptContext objs e =
     \<lparr>gameObject = (if e \<in> set objs then Some e else None),
      time_deltaTime = double (16 / 1000),
      time_time = 0,
      time_writes = Returns,
      time_getTime = Returns,
      object_writes = Returns\<rparr>"

text \<open>The instance and its context as the run of the text leaves them.\<close>

definition after_run :: "run_effect \<Rightarrow> script_context \<Rightarrow> script_instance" where
  "after_run eff context =
     \<lparr>ctx = (if this_context eff
             then Some (context\<lparr>time_writes := on_time_write eff,
                                time_getTime := on_getTime eff,
                                object_writes := on_object_write eff\<rparr>)
             else None),
      inst_start = this_start eff,
      inst_update = this_update eff,
      inst_onDestroy = this_onDestroy eff\<rparr>"

text \<open>
  The three statements after the run: a hook name that is a function in the context
  overwrites the slot of the instance, any other value leaves the slot as it is.
\<close>

definition copy_hook :: "outcome option \<Rightarrow> outcome option \<Rightarrow> outcome option" where
  "copy_hook from_context slot = (case from_context of Some h \<Rightarrow> Some h | None \<Rightarrow> slot)"

text \<open>
  \<^verbatim>\<open>compileScript\<close>: the whole body is one \<^verbatim>\<open>try\<close>. \<^verbatim>\<open>new Function\<close> comes before the
  assignment to \<^verbatim>\<open>this.scriptInstance\<close>, the call of the compiled function after it, and the
  three hooks are copied from the context only once that call has returned. The \<^verbatim>\<open>catch\<close>
  writes one console error and nothing else.
\<close>

definition compileScript :: "js_engine \<Rightarrow> entity_id list \<Rightarrow> script \<Rightarrow> script \<times> event list" where
  "compileScript js objs sc =
     (case js (scriptCode sc) of
        SyntaxError \<Rightarrow> (sc, [ConsoleError (CompileFailed (entity sc))])
      | Ran eff \<Rightarrow>
          (let inst = after_run eff (createScriptContext objs (entity sc))
           in if threw eff
              then (sc\<lparr>scriptInstance := Some inst\<rparr>, [ConsoleError (CompileFailed (entity sc))])
              else (sc\<lparr>scriptInstance :=
                        Some (inst\<lparr>inst_start := copy_hook (fn_start eff) (inst_start inst),
                                   inst_update := copy_hook (fn_update eff) (inst_update inst),
                                   inst_onDestroy := copy_hook (fn_onDestroy eff) (inst_onDestroy inst)\<rparr>)\<rparr>,
                    [ConsoleLog (CompiledOk (entity sc))])))"

text \<open>
  The constructor. \<^verbatim>\<open>data = {}\<close> replaces only \<^verbatim>\<open>undefined\<close>, so \<^verbatim>\<open>null\<close> reaches
  \<^verbatim>\<open>data.scriptName\<close> and throws a TypeError. (After the default no \<^verbatim>\<open>undefined\<close> is left;
  the case is there for the sake of totality.)
\<close>

definition Script_new ::
  "js_engine \<Rightarrow> entity_id list \<Rightarrow> nat \<Rightarrow> entity_id \<Rightarrow> js_data \<Rightarrow> error + script \<times> event list" where
  "Script_new js objs r e data =
     (case default_data data of
        Null \<Rightarrow> Inl (ConstructorError e)
      | Undefined \<Rightarrow> Inl (ConstructorError e)
      | Obj f \<Rightarrow>
        (let sc = \<lparr>s_ref = r,
                   entity = e,
                   scriptName = (case d_scriptName f of Some n \<Rightarrow> n | None \<Rightarrow> []),
                   scriptCode = (case d_scriptCode f of Some c \<Rightarrow> c | None \<Rightarrow> []),
                   scriptInstance = None,
                   enabled = (case d_enabled f of Some b \<Rightarrow> b | None \<Rightarrow> True),
                   variables = (case d_variables f of Some v \<Rightarrow> v | None \<Rightarrow> [])\<rparr>
         in if scriptCode sc \<noteq> [] \<or> scriptName sc \<noteq> []
            then Inr (compileScript js objs sc)
            else Inr (sc, [])))"

definition setScript ::
  "js_engine \<Rightarrow> entity_id list \<Rightarrow> string \<Rightarrow> string \<Rightarrow> script \<Rightarrow> script \<times> event list" where
  "setScript js objs name code sc =
     compileScript js objs (sc\<lparr>scriptName := name, scriptCode := code\<rparr>)"

text \<open>
  The last statement of \<^verbatim>\<open>Script.update\<close>: the call of the user hook, the only one inside a
  \<^verbatim>\<open>try\<close>.
\<close>

definition call_update_hook :: "script \<Rightarrow> script_instance \<Rightarrow> event list" where
  "call_update_hook sc inst =
     (case inst_update inst of
        None \<Rightarrow> []
      | Some Returns \<Rightarrow> [HookCalled (entity sc) HUpdate]
      | Some Throws \<Rightarrow> [HookCalled (entity sc) HUpdate, ConsoleError (UpdateFailed (entity sc))])"

text \<open>
  \<^verbatim>\<open>Script.update(deltaTime)\<close>: the error that leaves the call (if any), the component
  afterwards and what happened inside. The refresh of the context comes before the \<^verbatim>\<open>try\<close>
  and in this order: the write of \<^verbatim>\<open>time.deltaTime\<close>, the call of \<^verbatim>\<open>getTime\<close> and the write
  of \<^verbatim>\<open>time.time\<close>, the look-up of the scene object, the writes of \<^verbatim>\<open>gameObject\<close>. The
  system argument is read only: the editor mode, the clock and the scene objects.
\<close>

definition Script_update ::
  "real \<Rightarrow> real \<Rightarrow> system \<Rightarrow> script \<Rightarrow> error option \<times> script \<times> event list" where
  "Script_update now deltaTime s sc =
     (case scriptInstance sc of
        None \<Rightarrow> (None, sc, [])
      | Some inst \<Rightarrow>
          if \<not> enabled sc then (None, sc, [])
          else if editorMode s \<noteq> ''play'' then (None, sc, [])
          else
            (case ctx inst of
               None \<Rightarrow> (None, sc, call_update_hook sc inst)
             | Some c \<Rightarrow>
                 if time_writes c = Throws then (Some (ContextError (entity sc)), sc, [])
                 else if time_getTime c = Throws
                 then (Some (ContextError (entity sc)),
                       sc\<lparr>scriptInstance := Some (inst\<lparr>ctx := Some (c\<lparr>time_deltaTime := deltaTime\<rparr>)\<rparr>)\<rparr>,
                       [])
                 else
                   (let timed = c\<lparr>time_deltaTime := deltaTime, time_time := getTime now s\<rparr>
                    in if entity sc \<in> set (sceneObjects s)
                       then
                         if object_writes c = Throws
                         then (Some (ContextError (entity sc)),
                               sc\<lparr>scriptInstance := Some (inst\<lparr>ctx := Some timed\<rparr>)\<rparr>,
                               [])
                         else (None,
                               sc\<lparr>scriptInstance :=
                                    Some (inst\<lparr>ctx := Some (timed\<lparr>gameObject := Some (entity sc)\<rparr>)\<rparr>)\<rparr>,
                               call_update_hook sc inst)
                       else (None,
                             sc\<lparr>scriptInstance := Some (inst\<lparr>ctx := Some timed\<rparr>)\<rparr>,
                             [ConsoleWarn (NoObject (entity sc))]))))"

definition Script_destroy :: "script \<Rightarrow> script \<times> event list" where
  "Script_destroy sc =
     (sc\<lparr>scriptInstance := None\<rparr>,
      (case scriptInstance sc of
         None \<Rightarrow> []
       | Some inst \<Rightarrow>
           (case inst_onDestroy inst of
              None \<Rightarrow> []
            | Some Returns \<Rightarrow> [HookCalled (entity sc) HOnDestroy]
            | Some Throws \<Rightarrow>
                [HookCalled (entity sc) HOnDestroy, ConsoleError (DestroyFailed (entity sc))])))"

section \<open>Components behind the common interface\<close>

text \<open>
  \<^verbatim>\<open>new ComponentClass(entityId, data)\<close>. The constructors of Collider and Light read
  \<^verbatim>\<open>data.type\<close> and \<^verbatim>\<open>data.lightType\<close> first, so they too throw on \<^verbatim>\<open>null\<close>; both classes
  define \<^verbatim>\<open>update\<close> and \<^verbatim>\<open>destroy\<close>.
\<close>

definition construct ::
  "js_engine \<Rightarrow> entity_id list \<Rightarrow> component_class \<Rightarrow> nat \<Rightarrow> entity_id \<Rightarrow> js_data
     \<Rightarrow> error + component \<times> event list" where
  "construct js objs cls r e data =
     (case cls of
        ScriptClass \<Rightarrow>
          (case Script_new js objs r e data of
             Inl err \<Rightarrow> Inl err
           | Inr (sc, evs) \<Rightarrow> Inr (Script sc, evs))
      | NativeClass ok up de \<Rightarrow>
          if ok data
          then Inr (Native \<lparr>n_ref = r, n_entity = e, n_data = data,
                           n_update = up, n_destroy = de\<rparr>, [])
          else Inl (ConstructorError e))"

definition Collider :: component_class where
  "Collider = NativeClass (\<lambda>d. d \<noteq> Null) (Some Returns) (Some Returns)"

definition Light :: component_class where
  "Light = NativeClass (\<lambda>d. d \<noteq> Null) (Some Returns) (Some Returns)"

definition component_ref :: "component \<Rightarrow> nat" where
  "component_ref c = (case c of Script sc \<Rightarrow> s_ref sc | Native n \<Rightarrow> n_ref n)"

text \<open>\<^verbatim>\<open>typeof component.update === 'function'\<close> and the same test for \<^verbatim>\<open>destroy\<close>.\<close>

definition has_update :: "component \<Rightarrow> bool" where
  "has_update c = (case c of Script sc \<Rightarrow> True | Native n \<Rightarrow> n_update n \<noteq> None)"

definition has_destroy :: "component \<Rightarrow> bool" where
  "has_destroy c = (case c of Script sc \<Rightarrow> True | Native n \<Rightarrow> n_destroy n \<noteq> None)"

text \<open>
  \<^verbatim>\<open>component.update(deltaTime)\<close> as the scheduler sees it: the error that leaves the call
  (if any), the component afterwards, and what happened inside.
\<close>

definition component_update ::
  "real \<Rightarrow> real \<Rightarrow> system \<Rightarrow> entity_id \<Rightarrow> string \<Rightarrow> component
     \<Rightarrow> error option \<times> component \<times> event list" where
  "component_update now deltaTime s e name c =
     (case c of
        Script sc \<Rightarrow>
          (case Script_update now deltaTime s sc of (r, sc', evs) \<Rightarrow> (r, Script sc', evs))
      | Native n \<Rightarrow>
          (case n_update n of
             Some Throws \<Rightarrow> (Some (UpdateError e name), c, [])
           | _ \<Rightarrow> (None, c, [])))"

definition component_destroy ::
  "entity_id \<Rightarrow> string \<Rightarrow> component \<Rightarrow> error option \<times> component \<times> event list" where
  "component_destroy e name c =
     (case c of
        Script sc \<Rightarrow>
          (case Script_destroy sc of (sc', evs) \<Rightarrow> (None, Script sc', DestroyCalled e name # evs))
      | Native n \<Rightarrow>
          (case n_destroy n of
             None \<Rightarrow> (None, c, [])
           | Some Returns \<Rightarrow> (None, c, [DestroyCalled e name])
           | Some Throws \<Rightarrow> (Some (DestroyError e name), c, [DestroyCalled e name])))"

section \<open>The update scheduler\<close>

text \<open>
  The two nested \<^verbatim>\<open>forEach\<close> loops of \<^verbatim>\<open>updateComponents\<close>. There is no \<^verbatim>\<open>try\<close> around
  \<^verbatim>\<open>component.update(deltaTime)\<close>, so an error leaving that call ends both loops; what was
  done before it stays done. \<open>sel\<close> is the test on the component name.
\<close>

fun forEach_component ::
  "(string \<Rightarrow> bool) \<Rightarrow> real \<Rightarrow> real \<Rightarrow> system \<Rightarrow> entity_id \<Rightarrow> (string \<times> component) list
     \<Rightarrow> error option \<times> (string \<times> component) list \<times> event list" where
  "forEach_component sel now dt s e [] = (None, [], [])"
| "forEach_component sel now dt s e ((name, c) # cs) =
     (if sel name \<and> has_update c
      then
        (case component_update now dt s e name c of
           (Some err, c', evs) \<Rightarrow> (Some err, (name, c') # cs, UpdateCalled e name dt # evs)
         | (None, c', evs) \<Rightarrow>
             (case forEach_component sel now dt s e cs of
                (r, cs', evs') \<Rightarrow> (r, (name, c') # cs', UpdateCalled e name dt # evs @ evs')))
      else
        (case forEach_component sel now dt s e cs of
           (r, cs', evs') \<Rightarrow> (r, (name, c) # cs', evs')))"

fun forEach_entity ::
  "(string \<Rightarrow> bool) \<Rightarrow> real \<Rightarrow> real \<Rightarrow> system
     \<Rightarrow> (entity_id \<times> (string \<times> component) list) list
     \<Rightarrow> error option \<times> (entity_id \<times> (string \<times> component) list) list \<times> event list" where
  "forEach_entity sel now dt s [] = (None, [], [])"
| "forEach_entity sel now dt s ((e, comps) # rest) =
     (case forEach_component sel now dt s e comps of
        (Some err, comps', evs) \<Rightarrow> (Some err, (e, comps') # rest, evs)
      | (None, comps', evs) \<Rightarrow>
          (case forEach_entity sel now dt s rest of
             (r, rest', evs') \<Rightarrow> (r, (e, comps') # rest', evs @ evs')))"

definition run_updates ::
  "(string \<Rightarrow> bool) \<Rightarrow> real \<Rightarrow> real \<Rightarrow> system \<Rightarrow> (error + unit) \<times> system" where
  "run_updates sel now dt s =
     (case forEach_entity sel now dt s (entityComponents s) of
        (r, store', evs) \<Rightarrow>
          ((case r of Some err \<Rightarrow> Inl err | None \<Rightarrow> Inr ()),
           s\<lparr>entityComponents := store', trace := trace s @ evs\<rparr>))"

definition updateComponents :: "real \<Rightarrow> real \<Rightarrow> system \<Rightarrow> (error + unit) \<times> system" where
  "updateComponents now deltaTime s =
     (if editorMode s = ''play'' then run_updates (\<lambda>name. True) now deltaTime s
      else if editorMode s = ''pause'' then run_updates (\<lambda>name. name \<noteq> ''Script'') now deltaTime s
      else run_updates (\<lambda>name. name \<noteq> ''Script'') now deltaTime s)"

section \<open>Script lifecycle: start, stop, reset\<close>

text \<open>
  The writes \<^verbatim>\<open>context.time.time = 0\<close> and \<^verbatim>\<open>context.time.deltaTime = 0\<close> of
  \<^verbatim>\<open>startScriptExecution\<close> and \<^verbatim>\<open>resetScriptExecution\<close>, made when the instance has a
  context; they are outside every \<^verbatim>\<open>try\<close>. \<open>None\<close> is the throw.
\<close>

definition reset_time :: "script_instance \<Rightarrow> script_instance option" where
  "reset_time inst =
     (case ctx inst of
        None \<Rightarrow> Some inst
      | Some c \<Rightarrow>
          if time_writes c = Throws then None
          else Some (inst\<lparr>ctx := Some (c\<lparr>time_time := 0, time_deltaTime := 0\<rparr>)\<rparr>))"

text \<open>
  The body of the loop of \<^verbatim>\<open>startScriptExecution\<close> for one entity: the error that leaves
  it (if any), the components of the entity afterwards and what happened.
\<close>

definition start_entity ::
  "entity_id \<Rightarrow> (string \<times> component) list
     \<Rightarrow> error option \<times> (string \<times> component) list \<times> event list" where
  "start_entity e comps =
     (case map_of comps ''Script'' of
        Some (Script sc) \<Rightarrow>
          (case scriptInstance sc of
             Some inst \<Rightarrow>
               (case reset_time inst of
                  None \<Rightarrow> (Some (ContextError e), comps, [])
                | Some inst' \<Rightarrow>
                    (None,
                     AList.update ''Script'' (Script (sc\<lparr>scriptInstance := Some inst'\<rparr>)) comps,
                     (case inst_start inst of
                        None \<Rightarrow> []
                      | Some Returns \<Rightarrow> [HookCalled e HStart]
                      | Some Throws \<Rightarrow> [HookCalled e HStart, ConsoleError (StartFailed e)])))
           | None \<Rightarrow> (None, comps, []))
      | _ \<Rightarrow> (None, comps, []))"

text \<open>The \<^verbatim>\<open>forEach\<close> over the entities: an error that leaves the body ends it.\<close>

fun start_entities ::
  "(entity_id \<times> (string \<times> component) list) list
     \<Rightarrow> error option \<times> (entity_id \<times> (string \<times> component) list) list \<times> event list" where
  "start_entities [] = (None, [], [])"
| "start_entities ((e, comps) # rest) =
     (case start_entity e comps of
        (Some err, comps', evs) \<Rightarrow> (Some err, (e, comps') # rest, evs)
      | (None, comps', evs) \<Rightarrow>
          (case start_entities rest of
             (r, rest', evs') \<Rightarrow> (r, (e, comps') # rest', evs @ evs')))"

definition startScriptExecution :: "real \<Rightarrow> system \<Rightarrow> (error + unit) \<times> system" where
  "startScriptExecution now s =
     (case start_entities (entityComponents s) of
        (r, store', evs) \<Rightarrow>
          ((case r of Some err \<Rightarrow> Inl err | None \<Rightarrow> Inr ()),
           s\<lparr>scriptStartTime := now,
             totalPausedTime := 0,
             entityComponents := store',
             trace := trace s @ evs\<rparr>))"

definition stop_entity :: "entity_id \<Rightarrow> (string \<times> component) list \<Rightarrow> event list" where
  "stop_entity e comps =
     (case map_of comps ''Script'' of
        Some (Script sc) \<Rightarrow>
          (case scriptInstance sc of
             Some inst \<Rightarrow>
               (case inst_onDestroy inst of
                  None \<Rightarrow> []
                | Some Returns \<Rightarrow> [HookCalled e HOnDestroy]
                | Some Throws \<Rightarrow> [HookCalled e HOnDestroy, ConsoleError (StopFailed e)])
           | None \<Rightarrow> [])
      | _ \<Rightarrow> [])"

definition stopScriptExecution :: "system \<Rightarrow> system" where
  "stopScriptExecution s =
     s\<lparr>trace := trace s @ concat (map (\<lambda>(e, comps). stop_entity e comps) (entityComponents s))\<rparr>"

definition reset_entity ::
  "entity_id \<Rightarrow> (string \<times> component) list \<Rightarrow> error option \<times> (string \<times> component) list" where
  "reset_entity e comps =
     (case map_of comps ''Script'' of
        Some (Script sc) \<Rightarrow>
          (case scriptInstance sc of
             Some inst \<Rightarrow>
               (case reset_time inst of
                  None \<Rightarrow> (Some (ContextError e), comps)
                | Some inst' \<Rightarrow>
                    (None, AList.update ''Script'' (Script (sc\<lparr>scriptInstance := Some inst'\<rparr>)) comps))
           | None \<Rightarrow> (None, comps))
      | _ \<Rightarrow> (None, comps))"

fun reset_entities ::
  "(entity_id \<times> (string \<times> component) list) list
     \<Rightarrow> error option \<times> (entity_id \<times> (string \<times> component) list) list" where
  "reset_entities [] = (None, [])"
| "reset_entities ((e, comps) # rest) =
     (case reset_entity e comps of
        (Some err, comps') \<Rightarrow> (Some err, (e, comps') # rest)
      | (None, comps') \<Rightarrow>
          (case reset_entities rest of (r, rest') \<Rightarrow> (r, (e, comps') # rest')))"

text \<open>
  \<^verbatim>\<open>resetScriptExecution\<close> zeroes the three clock fields first and then goes through the
  contexts; an error of the loop leaves the fields zeroed.
\<close>

definition resetScriptExecution :: "system \<Rightarrow> (error + unit) \<times> system" where
  "resetScriptExecution s =
     (case reset_entities (entityComponents s) of
        (r, store') \<Rightarrow>
          ((case r of Some err \<Rightarrow> Inl err | None \<Rightarrow> Inr ()),
           s\<lparr>scriptStartTime := 0,
             scriptPauseTime := 0,
             totalPausedTime := 0,
             entityComponents := store'\<rparr>))"

section \<open>The entity-component store\<close>

definition registerComponent :: "string \<Rightarrow> component_class \<Rightarrow> system \<Rightarrow> system" where
  "registerComponent name cls s = s\<lparr>componentTypes := AList.update name cls (componentTypes s)\<rparr>"

text \<open>
  The state a freshly constructed \<^verbatim>\<open>ComponentSystem\<close> leaves behind, next to an editor in
  its initial mode \<^verbatim>\<open>'edit'\<close> whose scene holds the objects \<open>objs\<close>.
\<close>

definition new_system :: "entity_id list \<Rightarrow> system" where
  "new_system objs =
     registerComponent ''Light'' Light
       (registerComponent ''Collider'' Collider
         (registerComponent ''Script'' ScriptClass
           \<lparr>componentTypes = [], entityComponents = [],
            scriptStartTime = 0, scriptPauseTime = 0, totalPausedTime = 0,
            updateableComponents = [], editorMode = ''edit'', sceneObjects = objs,
            nextRef = 0, trace = []\<rparr>))"

text \<open>The first step of \<^verbatim>\<open>addComponent\<close>: an entity without a component map gets an empty one.\<close>

definition ensure_entity_map :: "entity_id \<Rightarrow> system \<Rightarrow> system" where
  "ensure_entity_map entityId s =
     (if map_of (entityComponents s) entityId = None
      then s\<lparr>entityComponents := AList.update entityId [] (entityComponents s)\<rparr>
      else s)"

definition addComponent ::
  "js_engine \<Rightarrow> entity_id \<Rightarrow> string \<Rightarrow> js_data \<Rightarrow> system \<Rightarrow> (error + component) \<times> system" where
  "addComponent js entityId componentName data0 s =
     (case map_of (componentTypes s) componentName of
        None \<Rightarrow> (Inl (TypeNotFound componentName), s)
      | Some cls \<Rightarrow>
          (let data = default_data data0;
               s1 = ensure_entity_map entityId s;
               comps = (case map_of (entityComponents s1) entityId of Some m \<Rightarrow> m | None \<Rightarrow> [])
           in case map_of comps componentName of
                Some c \<Rightarrow>
                  (Inr c, s1\<lparr>trace := trace s1 @ [ConsoleWarn (AlreadyHas entityId componentName)]\<rparr>)
              | None \<Rightarrow>
                  (case construct js (sceneObjects s1) cls (nextRef s1) entityId data of
                     Inl err \<Rightarrow> (Inl err, s1\<lparr>nextRef := Suc (nextRef s1)\<rparr>)
                   | Inr (c, evs) \<Rightarrow>
                       (Inr c,
                        s1\<lparr>entityComponents :=
                             AList.update entityId (AList.update componentName c comps)
                               (entityComponents s1),
                           updateableComponents :=
                             (if has_update c
                              then List.insert (component_ref c) (updateableComponents s1)
                              else updateableComponents s1),
                           nextRef := Suc (nextRef s1),
                           trace := trace s1 @ evs @
                             [Emitted COMPONENT_ADDED entityId componentName c,
                              ConsoleLog (Added componentName entityId)]\<rparr>))))"

definition removeComponent ::
  "entity_id \<Rightarrow> string \<Rightarrow> system \<Rightarrow> (error + bool) \<times> system" where
  "removeComponent entityId componentName s =
     (case (case map_of (entityComponents s) entityId of
              None \<Rightarrow> None
            | Some comps \<Rightarrow>
                (case map_of comps componentName of None \<Rightarrow> None | Some c \<Rightarrow> Some (comps, c))) of
        None \<Rightarrow>
          (Inr False, s\<lparr>trace := trace s @ [ConsoleWarn (NotFound componentName entityId)]\<rparr>)
      | Some (comps, c) \<Rightarrow>
          (case (if has_destroy c then component_destroy entityId componentName c
                 else (None, c, [])) of
             (Some err, c', evs) \<Rightarrow> (Inl err, s\<lparr>trace := trace s @ evs\<rparr>)
           | (None, c', evs) \<Rightarrow>
               (let comps' = AList.delete componentName comps
                in (Inr True,
                    s\<lparr>entityComponents :=
                         (if comps' = [] then AList.delete entityId (entityComponents s)
                          else AList.update entityId comps' (entityComponents s)),
                       updateableComponents := removeAll (component_ref c) (updateableComponents s),
                       trace := trace s @ evs @
                         [Emitted COMPONENT_REMOVED entityId componentName c',
                          ConsoleLog (Removed componentName entityId)]\<rparr>))))"

definition getComponent :: "entity_id \<Rightarrow> string \<Rightarrow> system \<Rightarrow> component option" where
  "getComponent entityId componentName s =
     (case map_of (entityComponents s) entityId of
        None \<Rightarrow> None
      | Some comps \<Rightarrow> map_of comps componentName)"

definition getComponents :: "entity_id \<Rightarrow> system \<Rightarrow> component list" where
  "getComponents entityId s =
     (case map_of (entityComponents s) entityId of
        None \<Rightarrow> []
      | Some comps \<Rightarrow> map snd comps)"

definition hasComponent :: "entity_id \<Rightarrow> string \<Rightarrow> system \<Rightarrow> bool" where
  "hasComponent entityId componentName s =
     (case map_of (entityComponents s) entityId of
        None \<Rightarrow> False
      | Some comps \<Rightarrow> map_of comps componentName \<noteq> None)"

fun remove_each :: "entity_id \<Rightarrow> string list \<Rightarrow> system \<Rightarrow> (error + unit) \<times> system" where
  "remove_each e [] s = (Inr (), s)"
| "remove_each e (name # names) s =
     (case removeComponent e name s of
        (Inl err, s') \<Rightarrow> (Inl err, s')
      | (Inr b, s') \<Rightarrow> remove_each e names s')"

definition removeAllComponents :: "entity_id \<Rightarrow> system \<Rightarrow> (error + unit) \<times> system" where
  "removeAllComponents entityId s =
     (case map_of (entityComponents s) entityId of
        None \<Rightarrow> (Inr (), s)
      | Some comps \<Rightarrow> remove_each entityId (map fst comps) s)"

text \<open>
  Calls of the store made one after the other by its clients. An error leaves the call
  that raised it; the system keeps what that call had already written.
\<close>

datatype store_call =
    AddComponent entity_id string js_data
  | RemoveComponent entity_id string
  | RemoveAllComponents entity_id

fun store_step :: "js_engine \<Rightarrow> system \<Rightarrow> store_call \<Rightarrow> system" where
  "store_step js s (AddComponent e name data) = snd (addComponent js e name data s)"
| "store_step js s (RemoveComponent e name) = snd (removeComponent e name s)"
| "store_step js s (RemoveAllComponents e) = snd (removeAllComponents e s)"

definition store_run :: "js_engine \<Rightarrow> store_call list \<Rightarrow> system \<Rightarrow> system" where
  "store_run js calls s = foldl (store_step js) s calls"

section \<open>Vocabulary of the statements\<close>

text \<open>
  The state of the store in which every entity and, under an entity, every component name
  occurs once: what a \<^verbatim>\<open>Map\<close> of \<^verbatim>\<open>Map\<close>s is by construction.
\<close>

definition store_wf :: "system \<Rightarrow> bool" where
  "store_wf s \<longleftrightarrow>
     distinct (map fst (entityComponents s)) \<and>
     list_all (\<lambda>(e, comps). distinct (map fst comps)) (entityComponents s)"

text \<open>
  The hook \<open>h\<close> of the compiled instance of the Script component of entity \<open>e\<close>, when
  there is one.
\<close>

definition script_hook :: "hook_name \<Rightarrow> entity_id \<Rightarrow> system \<Rightarrow> outcome option" where
  "script_hook h e s =
     (case getComponent e ''Script'' s of
        Some (Script sc) \<Rightarrow>
          (case scriptInstance sc of
             Some inst \<Rightarrow>
               (case h of
                  HStart \<Rightarrow> inst_start inst
                | HUpdate \<Rightarrow> inst_update inst
                | HOnDestroy \<Rightarrow> inst_onDestroy inst)
           | None \<Rightarrow> None)
      | _ \<Rightarrow> None)"

text \<open>The bus emissions and the hook calls among the events of a trace.\<close>

fun is_emission :: "event \<Rightarrow> bool" where
  "is_emission (Emitted name e n c) = True"
| "is_emission ev = False"

definition emissions :: "event list \<Rightarrow> event list" where
  "emissions evs = filter is_emission evs"

fun is_hook_call :: "event \<Rightarrow> bool" where
  "is_hook_call (HookCalled e h) = True"
| "is_hook_call ev = False"

definition wf_entries :: "(entity_id \<times> (string \<times> component) list) list \<Rightarrow> bool" where
  "wf_entries store \<longleftrightarrow>
     distinct (map fst store) \<and> list_all (\<lambda>(e, comps). distinct (map fst comps)) store"

text \<open>
  The calls \<^verbatim>\<open>component.update(deltaTime)\<close> recorded in a trace, and the calls a tick owes:
  per entity and in the order of the maps, every component that has an \<^verbatim>\<open>update\<close> function
  and whose name passes the test of the mode (any name when playing, any name but
  \<^verbatim>\<open>'Script'\<close> otherwise).
\<close>

fun update_calls :: "event list \<Rightarrow> (entity_id \<times> string \<times> real) list" where
  "update_calls [] = []"
| "update_calls (UpdateCalled e name dt # evs) = (e, name, dt) # update_calls evs"
| "update_calls (ev # evs) = update_calls evs"

definition due_components ::
  "(string \<Rightarrow> bool) \<Rightarrow> (string \<times> component) list \<Rightarrow> string list" where
  "due_components sel comps = map fst (filter (\<lambda>(name, c). sel name \<and> has_update c) comps)"

definition due_updates ::
  "bool \<Rightarrow> real \<Rightarrow> (entity_id \<times> (string \<times> component) list) list
     \<Rightarrow> (entity_id \<times> string \<times> real) list" where
  "due_updates playing dt store =
     concat (map (\<lambda>(e, comps).
                    map (\<lambda>name. (e, name, dt))
                      (due_components (\<lambda>name. playing \<or> name \<noteq> ''Script'') comps))
                 store)"

text \<open>
  The components whose \<^verbatim>\<open>update\<close> lets an error out when called in state \<open>s\<close>. For a script
  these are the statements of \<^verbatim>\<open>Script.update\<close> before its \<^verbatim>\<open>try\<close>, on a context that
  refuses them; the user hook plays no part.
\<close>

definition script_update_raises :: "system \<Rightarrow> script \<Rightarrow> bool" where
  "script_update_raises s sc =
     (case scriptInstance sc of
        None \<Rightarrow> False
      | Some inst \<Rightarrow>
          enabled sc \<and> editorMode s = ''play'' \<and>
          (case ctx inst of
             None \<Rightarrow> False
           | Some c \<Rightarrow>
               time_writes c = Throws \<or> time_getTime c = Throws \<or>
               (entity sc \<in> set (sceneObjects s) \<and> object_writes c = Throws)))"

definition update_raises :: "system \<Rightarrow> component \<Rightarrow> bool" where
  "update_raises s c =
     (case c of Script sc \<Rightarrow> script_update_raises s sc | Native n \<Rightarrow> n_update n = Some Throws)"

text \<open>The user \<^verbatim>\<open>update\<close> hook that a call of \<^verbatim>\<open>Script.update\<close> in state \<open>s\<close> reaches.\<close>

definition reached_update_hook :: "system \<Rightarrow> script \<Rightarrow> outcome option" where
  "reached_update_hook s sc =
     (case scriptInstance sc of
        None \<Rightarrow> None
      | Some inst \<Rightarrow>
          if enabled sc \<and> editorMode s = ''play'' \<and> \<not> script_update_raises s sc \<and>
             (ctx inst = None \<or> entity sc \<in> set (sceneObjects s))
          then inst_update inst
          else None)"

text \<open>
  The components a tick owes a call, with entity and name, in the order of the maps; and a
  list up to and including its first element with property \<open>P\<close>.
\<close>

definition due_list ::
  "bool \<Rightarrow> (entity_id \<times> (string \<times> component) list) list
     \<Rightarrow> (entity_id \<times> string \<times> component) list" where
  "due_list playing store =
     concat (map (\<lambda>(e, comps).
                    map (\<lambda>(name, c). (e, name, c))
                      (filter (\<lambda>(name, c). (playing \<or> name \<noteq> ''Script'') \<and> has_update c) comps))
                 store)"

definition up_to_first :: "('a \<Rightarrow> bool) \<Rightarrow> 'a list \<Rightarrow> 'a list" where
  "up_to_first P xs = takeWhile (\<lambda>x. \<not> P x) xs @ take 1 (dropWhile (\<lambda>x. \<not> P x) xs)"

text \<open>
  The entities at which the loop of \<^verbatim>\<open>startScriptExecution\<close> throws: the context of the
  compiled instance refuses the writes of the time fields.
\<close>

definition start_raises :: "(string \<times> component) list \<Rightarrow> bool" where
  "start_raises comps =
     (case map_of comps ''Script'' of
        Some (Script sc) \<Rightarrow>
          (case scriptInstance sc of
             Some inst \<Rightarrow> (case ctx inst of Some c \<Rightarrow> time_writes c = Throws | None \<Rightarrow> False)
           | None \<Rightarrow> False)
      | _ \<Rightarrow> False)"

text \<open>The entities the loop of \<^verbatim>\<open>startScriptExecution\<close> gets through.\<close>

definition started_entities :: "system \<Rightarrow> entity_id list" where
  "started_entities s =
     map fst (takeWhile (\<lambda>(e, comps). \<not> start_raises comps) (entityComponents s))"

section \<open>Example scripts and systems\<close>

text \<open>
  A run that returns, assigns nothing through \<^verbatim>\<open>this\<close>, declares no hook and leaves the
  context as it was.
\<close>

definition quiet_run :: run_effect where
  "quiet_run =
     \<lparr>threw = False, this_context = True,
      this_start = None, this_update = None, this_onDestroy = None,
      fn_start = None, fn_update = None, fn_onDestroy = None,
      on_time_write = Returns, on_getTime = Returns, on_object_write = Returns\<rparr>"

text \<open>
  How a JavaScript engine answers on the script texts of the examples: a text declaring
  one hook, whose body is empty or throws; a text that throws when run, at once, after it
  has assigned \<^verbatim>\<open>this.update\<close>, or after it has set \<^verbatim>\<open>context.time\<close> to \<^verbatim>\<open>null\<close>; a text that
  first rebinds \<^verbatim>\<open>time\<close> to a number, so that \<^verbatim>\<open>context.time\<close> is \<open>0\<close> from then on; a text that
  does not parse. Every other text of the examples is a quiet run.
\<close>

definition sample_js :: js_engine where
  "sample_js code =
     (if code = ''function start(){}'' then Ran (quiet_run\<lparr>fn_start := Some Returns\<rparr>)
      else if code = ''function start(){throw 1}'' then Ran (quiet_run\<lparr>fn_start := Some Throws\<rparr>)
      else if code = ''function update(){}'' then Ran (quiet_run\<lparr>fn_update := Some Returns\<rparr>)
      else if code = ''function update(){throw 1}'' then Ran (quiet_run\<lparr>fn_update := Some Throws\<rparr>)
      else if code = ''function onDestroy(){}'' then Ran (quiet_run\<lparr>fn_onDestroy := Some Returns\<rparr>)
      else if code = ''function onDestroy(){throw 1}''
      then Ran (quiet_run\<lparr>fn_onDestroy := Some Throws\<rparr>)
      else if code = ''throw 1'' then Ran (quiet_run\<lparr>threw := True\<rparr>)
      else if code = ''this.update = function(){}; throw 1''
      then Ran (quiet_run\<lparr>threw := True, this_update := Some Returns\<rparr>)
      else if code = ''time = null; throw 1''
      then Ran (quiet_run\<lparr>threw := True, on_time_write := Throws, on_getTime := Throws\<rparr>)
      else if code = ''var time = 0; function start(){}''
      then Ran (quiet_run\<lparr>fn_start := Some Returns, on_time_write := Throws, on_getTime := Throws\<rparr>)
      else if code = ''var time = 0; function update(){}''
      then Ran (quiet_run\<lparr>fn_update := Some Returns, on_time_write := Throws, on_getTime := Throws\<rparr>)
      else if code = ''function ('' then SyntaxError
      else Ran quiet_run)"

definition script_data :: "string \<Rightarrow> bool \<Rightarrow> js_data" where
  "script_data code on =
     Obj \<lparr>d_scriptName = None, d_scriptCode = Some code, d_enabled = Some on,
          d_variables = None, d_props = []\<rparr>"

definition ex_script :: "string \<Rightarrow> script" where
  "ex_script code =
     \<lparr>s_ref = 0, entity = ''e1'', scriptName = [], scriptCode = code, scriptInstance = None,
      enabled = True, variables = []\<rparr>"

text \<open>A script whose text throws when it is run, added to an entity of the scene.\<close>

definition ex_broken :: system where
  "ex_broken = snd (addComponent sample_js ''e1'' ''Script'' (script_data ''throw 1'' True)
      (new_system [''e1'']))"

text \<open>A script whose text assigns \<^verbatim>\<open>this.update\<close> and then throws, in a playing scene.\<close>

definition ex_assigning :: system where
  "ex_assigning =
     (snd (addComponent sample_js ''e1'' ''Script''
        (script_data ''this.update = function(){}; throw 1'' True)
        (new_system [''e1''])))\<lparr>editorMode := ''play''\<rparr>"

text \<open>A disabled script that declares \<^verbatim>\<open>start\<close>.\<close>

definition ex_disabled :: system where
  "ex_disabled = snd (addComponent sample_js ''e1'' ''Script''
      (script_data ''function start(){}'' False) (new_system [''e1'']))"

text \<open>Three scripts declaring \<^verbatim>\<open>start\<close>: a disabled one, one that throws, one that returns.\<close>

definition ex_starters :: system where
  "ex_starters =
     snd (addComponent sample_js ''e3'' ''Script'' (script_data ''function start(){}'' True)
       (snd (addComponent sample_js ''e2'' ''Script'' (script_data ''function start(){throw 1}'' True)
         (snd (addComponent sample_js ''e1'' ''Script'' (script_data ''function start(){}'' False)
           (new_system [''e1'', ''e2'', ''e3'']))))))"

text \<open>
  Two scripts declaring \<^verbatim>\<open>start\<close>, the text of the first one rebinding \<^verbatim>\<open>time\<close>; the same
  with \<^verbatim>\<open>update\<close>, before a Collider and in a playing scene.
\<close>

definition ex_rebound :: system where
  "ex_rebound =
     snd (addComponent sample_js ''e2'' ''Script'' (script_data ''function start(){}'' True)
       (snd (addComponent sample_js ''e1'' ''Script''
          (script_data ''var time = 0; function start(){}'' True)
          (new_system [''e1'', ''e2'']))))"

definition ex_rebound_playing :: system where
  "ex_rebound_playing =
     (snd (addComponent sample_js ''e2'' ''Script'' (script_data ''function update(){}'' True)
       (snd (addComponent sample_js ''e1'' ''Collider'' Undefined
         (snd (addComponent sample_js ''e1'' ''Script''
            (script_data ''var time = 0; function update(){}'' True)
            (new_system [''e1'', ''e2''])))))))\<lparr>editorMode := ''play''\<rparr>"

text \<open>Two scripts declaring \<^verbatim>\<open>onDestroy\<close>, the second throwing, in a session started at 1000 ms.\<close>

definition ex_playing :: system where
  "ex_playing =
     snd (startScriptExecution 1000
       (snd (addComponent sample_js ''e2'' ''Script'' (script_data ''function onDestroy(){throw 1}'' True)
         (snd (addComponent sample_js ''e1'' ''Script'' (script_data ''function onDestroy(){}'' True)
           (new_system [''e1'', ''e2'']))))))"

text \<open>An entity with a Collider built from no data, and a data object for a second call.\<close>

definition ex_collider :: system where
  "ex_collider = snd (addComponent sample_js ''e1'' ''Collider'' Undefined (new_system [''e1'']))"

definition box_data :: js_data where
  "box_data = Obj \<lparr>d_scriptName = None, d_scriptCode = None, d_enabled = None,
                   d_variables = None, d_props = [(''isTrigger'', 1)]\<rparr>"

text \<open>
  A class registered by a plugin whose \<^verbatim>\<open>update\<close> throws, attached to \<^verbatim>\<open>e1\<close> before a
  Collider; a second entity with a Collider.
\<close>

definition Boom :: component_class where
  "Boom = NativeClass (\<lambda>d. True) (Some Throws) None"

definition ex_boom :: system where
  "ex_boom =
     snd (addComponent sample_js ''e2'' ''Collider'' Undefined
       (snd (addComponent sample_js ''e1'' ''Collider'' Undefined
         (snd (addComponent sample_js ''e1'' ''Boom'' Undefined
           (registerComponent ''Boom'' Boom (new_system [''e1'', ''e2'']))))))) "

text \<open>
  A playing scene: \<^verbatim>\<open>e1\<close> has a script whose \<^verbatim>\<open>update\<close> hook throws and a Collider, \<^verbatim>\<open>e2\<close>
  has a Light.
\<close>

definition ex_scene :: system where
  "ex_scene =
     snd (startScriptExecution 1000
       (snd (addComponent sample_js ''e2'' ''Light'' Undefined
         (snd (addComponent sample_js ''e1'' ''Collider'' Undefined
           (snd (addComponent sample_js ''e1'' ''Script'' (script_data ''function update(){throw 1}'' True)
             (new_system [''e1'', ''e2'']))))))))"

text \<open>A sequence of store calls on two entities.\<close>

definition ex_calls :: "store_call list" where
  "ex_calls =
     [AddComponent ''e1'' ''Collider'' Undefined,
      AddComponent ''e1'' ''Collider'' box_data,
      AddComponent ''e1'' ''Script'' Undefined,
      RemoveComponent ''e1'' ''Collider'',
      AddComponent ''e2'' ''Light'' box_data,
      AddComponent ''e1'' ''Collider'' box_data,
      RemoveAllComponents ''e2'']"

section \<open>Evaluating the examples\<close>

lemmas eval_defs =
  Let_def addComponent_def ensure_entity_map_def default_data_def empty_data_def new_system_def
  registerComponent_def construct_def Script_new_def compileScript_def createScriptContext_def
  after_run_def copy_hook_def quiet_run_def sample_js_def script_data_def Collider_def Light_def
  has_update_def component_ref_def startScriptExecution_def start_entity_def reset_time_def
  start_raises_def started_entities_def
  getComponent_def script_hook_def store_wf_def COMPONENT_ADDED_def

section \<open>Rounding to a double\<close>

text \<open>Evaluating \<open>double\<close> on a numeral needs the bit length of a numeral.\<close>

lemma bitlen_numeral_eval:
  "bitlen (numeral k) = bitlen (numeral k div 2) + 1"
  "bitlen 1 = 1"
  by (subst compute_bitlen, simp)+

lemmas double_eval =
  double_def binade_def rhe_def js_add_def js_sub_def js_div_def power_int_minus
  bitlen_numeral_eval

lemma rhe_floor_or_next: "rhe y = \<lfloor>y\<rfloor> \<or> rhe y = \<lfloor>y\<rfloor> + 1"
  by (simp add: rhe_def Let_def)

lemma rhe_of_int [simp]: "rhe (of_int n) = n"
  by (simp add: rhe_def)

lemma rhe_err: "\<bar>of_int (rhe y) - y\<bar> \<le> 1 / 2"
proof -
  have "of_int \<lfloor>y\<rfloor> \<le> y" "y < of_int \<lfloor>y\<rfloor> + 1" by linarith+
  then show ?thesis by (auto simp: rhe_def Let_def)
qed

lemma rhe_mono: assumes "y \<le> z" shows "rhe y \<le> rhe z"
proof (cases "\<lfloor>y\<rfloor> = \<lfloor>z\<rfloor>")
  case True
  with assms show ?thesis by (auto simp: rhe_def Let_def)
next
  case False
  with assms have "\<lfloor>y\<rfloor> < \<lfloor>z\<rfloor>" using floor_mono [of y z] by linarith
  moreover have "rhe y \<le> \<lfloor>y\<rfloor> + 1" using rhe_floor_or_next [of y] by linarith
  moreover have "\<lfloor>z\<rfloor> \<le> rhe z" using rhe_floor_or_next [of z] by linarith
  ultimately show ?thesis by linarith
qed

lemma bitlen_pos: "0 < n \<Longrightarrow> 1 \<le> bitlen n"
  using bitlen_nonneg [of "n div 2"] by (subst compute_bitlen) simp

lemma powi_nonneg: "0 \<le> k \<Longrightarrow> (2::real) powi k = 2 ^ nat k"
  by (simp add: power_int_def)

lemma binade_bounds:
  assumes "0 < x"
  shows "2 powi binade x \<le> x" and "x < 2 powi (binade x + 1)"
proof -
  have "2 powi binade x \<le> x \<and> x < 2 powi (binade x + 1)"
  proof (cases "1 \<le> x")
    case True
    define n where "n = \<lfloor>x\<rfloor>"
    have n: "0 < n" using True by (simp add: n_def)
    from bitlen_bounds [OF n] have b: "2 ^ nat (bitlen n - 1) \<le> n" "n < 2 ^ nat (bitlen n)"
      by simp_all
    have bl: "1 \<le> bitlen n" using n by (rule bitlen_pos)
    have "(2::real) ^ nat (bitlen n - 1) \<le> of_int n"
      using b(1) by (metis of_int_le_iff of_int_numeral of_int_power)
    also have "\<dots> \<le> x" by (simp add: n_def)
    finally have lo: "(2::real) powi (bitlen n - 1) \<le> x" using bl by (simp add: powi_nonneg)
    have "n + 1 \<le> 2 ^ nat (bitlen n)" using b(2) by simp
    then have "of_int (n + 1) \<le> (2::real) ^ nat (bitlen n)"
      by (metis of_int_le_iff of_int_numeral of_int_power)
    moreover have "x < of_int (n + 1)" by (simp add: n_def)
    ultimately have "x < (2::real) ^ nat (bitlen n)" by linarith
    then have hi: "x < (2::real) powi (bitlen n)" using bl by (simp add: powi_nonneg)
    from lo hi True show ?thesis by (simp add: binade_def n_def)
  next
    case False
    define m where "m = \<lceil>1 / x\<rceil> - 1"
    have inv: "1 < 1 / x" using False assms by simp
    then have m: "0 < m" unfolding m_def by linarith
    from bitlen_bounds [OF m] have b: "2 ^ nat (bitlen m - 1) \<le> m" "m < 2 ^ nat (bitlen m)"
      by simp_all
    have bl: "1 \<le> bitlen m" using m by (rule bitlen_pos)
    have "m + 1 \<le> 2 ^ nat (bitlen m)" using b(2) by simp
    then have "of_int (m + 1) \<le> (2::real) ^ nat (bitlen m)"
      by (metis of_int_le_iff of_int_numeral of_int_power)
    moreover have "1 / x \<le> of_int (m + 1)" by (simp add: m_def)
    ultimately have "1 / x \<le> (2::real) ^ nat (bitlen m)" by linarith
    then have "1 \<le> x * (2::real) ^ nat (bitlen m)"
      using assms by (simp add: field_simps)
    then have lo: "(2::real) powi (- bitlen m) \<le> x"
      using bl by (simp add: power_int_minus powi_nonneg field_simps)
    have "(2::real) ^ nat (bitlen m - 1) \<le> of_int m"
      using b(1) by (metis of_int_le_iff of_int_numeral of_int_power)
    also have "of_int m < 1 / x" unfolding m_def by linarith
    finally have "x * (2::real) ^ nat (bitlen m - 1) < 1"
      using assms by (simp add: field_simps)
    then have "x < 1 / (2::real) ^ nat (bitlen m - 1)"
      by (simp add: pos_less_divide_eq)
    moreover have "(2::real) powi (- bitlen m + 1) = 1 / 2 ^ nat (bitlen m - 1)"
    proof -
      have "(2::real) powi (- bitlen m + 1) = 2 powi (- (bitlen m - 1))" by simp
      also have "\<dots> = 1 / 2 powi (bitlen m - 1)" by (rule power_int_minus_divide)
      also have "\<dots> = 1 / 2 ^ nat (bitlen m - 1)" using bl by (simp add: powi_nonneg)
      finally show ?thesis .
    qed
    ultimately have hi: "x < (2::real) powi (- bitlen m + 1)" by simp
    from lo hi False show ?thesis by (simp add: binade_def m_def)
  qed
  then show "2 powi binade x \<le> x" and "x < 2 powi (binade x + 1)" by simp_all
qed

lemma binade_le:
  assumes "0 < x" and "x \<le> y"
  shows "binade x \<le> binade y"
proof (rule ccontr)
  assume "\<not> binade x \<le> binade y"
  then have "binade y + 1 \<le> binade x" by simp
  then have "(2::real) powi (binade y + 1) \<le> 2 powi binade x"
    by (intro power_int_increasing) simp_all
  moreover have "y < 2 powi (binade y + 1)" using assms by (intro binade_bounds) simp
  moreover have "2 powi binade x \<le> x" using assms by (intro binade_bounds)
  ultimately show False using assms by linarith
qed

lemma powi_shift: "(2::real) powi (e - 52) * 2 powi (52 - e) = 1"
proof -
  have "(2::real) powi (e - 52) * 2 powi (52 - e) = 2 powi ((e - 52) + (52 - e))"
    by (subst power_int_add) simp_all
  then show ?thesis by simp
qed

lemma double_pos_eq:
  "0 < x \<Longrightarrow>
   double x = of_int (rhe (x * 2 powi (52 - binade x))) * 2 powi (binade x - 52)"
  by (simp add: double_def)

lemma scaled_bounds:
  assumes "0 < x"
  shows "2 ^ 52 \<le> x * 2 powi (52 - binade x)" and "x * 2 powi (52 - binade x) < 2 ^ 53"
proof -
  have p: "(0::real) < 2 powi (52 - binade x)" by simp
  have "(2::real) ^ 52 = 2 powi binade x * 2 powi (52 - binade x)"
  proof -
    have "(2::real) powi binade x * 2 powi (52 - binade x) = 2 powi (binade x + (52 - binade x))"
      by (subst power_int_add) simp_all
    then show ?thesis by simp
  qed
  also have "\<dots> \<le> x * 2 powi (52 - binade x)"
    using binade_bounds(1) [OF assms] p by (intro mult_right_mono) simp_all
  finally show "2 ^ 52 \<le> x * 2 powi (52 - binade x)" .
  have "x * 2 powi (52 - binade x) < 2 powi (binade x + 1) * 2 powi (52 - binade x)"
    using binade_bounds(2) [OF assms] p by (intro mult_strict_right_mono)
  also have "\<dots> = 2 powi ((binade x + 1) + (52 - binade x))"
    by (subst power_int_add) simp_all
  also have "\<dots> = 2 ^ 53" by simp
  finally show "x * 2 powi (52 - binade x) < 2 ^ 53" .
qed

lemma rhe_scaled_bounds:
  assumes "0 < x"
  shows "2 ^ 52 \<le> rhe (x * 2 powi (52 - binade x))" and "rhe (x * 2 powi (52 - binade x)) \<le> 2 ^ 53"
proof -
  have "rhe (of_int (2 ^ 52)) \<le> rhe (x * 2 powi (52 - binade x))"
    using scaled_bounds(1) [OF assms] by (intro rhe_mono) simp
  then show "2 ^ 52 \<le> rhe (x * 2 powi (52 - binade x))" by (simp only: rhe_of_int)
  have "rhe (x * 2 powi (52 - binade x)) \<le> rhe (of_int (2 ^ 53))"
    using scaled_bounds(2) [OF assms] by (intro rhe_mono) simp
  then show "rhe (x * 2 powi (52 - binade x)) \<le> 2 ^ 53" by (simp only: rhe_of_int)
qed

lemma double_in_binade:
  assumes "0 < x"
  shows "2 powi binade x \<le> double x" and "double x \<le> 2 powi (binade x + 1)"
proof -
  let ?r = "rhe (x * 2 powi (52 - binade x))"
  have u: "(0::real) \<le> 2 powi (binade x - 52)" by simp
  have "(2::real) powi binade x = 2 ^ 52 * 2 powi (binade x - 52)"
  proof -
    have "(2::real) powi 52 * 2 powi (binade x - 52) = 2 powi (52 + (binade x - 52))"
      by (subst power_int_add) simp_all
    then show ?thesis by simp
  qed
  also have "\<dots> \<le> of_int ?r * 2 powi (binade x - 52)"
  proof (intro mult_right_mono u)
    have "of_int (2 ^ 52) \<le> (of_int ?r :: real)"
      using rhe_scaled_bounds(1) [OF assms] by (simp only: of_int_le_iff)
    then show "(2::real) ^ 52 \<le> of_int ?r" by simp
  qed
  finally show "2 powi binade x \<le> double x" using assms by (simp add: double_pos_eq)
  have "of_int ?r * (2::real) powi (binade x - 52) \<le> 2 ^ 53 * 2 powi (binade x - 52)"
  proof (intro mult_right_mono u)
    have "(of_int ?r :: real) \<le> of_int (2 ^ 53)"
      using rhe_scaled_bounds(2) [OF assms] by (simp only: of_int_le_iff)
    then show "of_int ?r \<le> (2::real) ^ 53" by simp
  qed
  also have "\<dots> = 2 powi (binade x + 1)"
  proof -
    have "(2::real) powi 53 * 2 powi (binade x - 52) = 2 powi (53 + (binade x - 52))"
      by (subst power_int_add) simp_all
    then show ?thesis by (simp add: add.commute)
  qed
  finally show "double x \<le> 2 powi (binade x + 1)" using assms by (simp add: double_pos_eq)
qed

lemma double_pos: "0 < x \<Longrightarrow> 0 < double x"
proof -
  assume a: "0 < x"
  have "(0::real) < 2 powi binade x" by simp
  with double_in_binade(1) [OF a] show ?thesis by linarith
qed

lemma double_minus: "double (- x) = - double x"
  by (simp add: double_def sgn_minus)

lemma double_mono_pos:
  assumes "0 < x" and "x \<le> y"
  shows "double x \<le> double y"
proof (cases "binade x = binade y")
  case True
  have y: "0 < y" using assms by linarith
  have "x * 2 powi (52 - binade y) \<le> y * 2 powi (52 - binade y)"
    using assms by (intro mult_right_mono) simp_all
  then have "rhe (x * 2 powi (52 - binade y)) \<le> rhe (y * 2 powi (52 - binade y))"
    by (rule rhe_mono)
  then have "(of_int (rhe (x * 2 powi (52 - binade y))) :: real) \<le> of_int (rhe (y * 2 powi (52 - binade y)))"
    by (simp only: of_int_le_iff)
  then have "of_int (rhe (x * 2 powi (52 - binade y))) * (2::real) powi (binade y - 52)
           \<le> of_int (rhe (y * 2 powi (52 - binade y))) * 2 powi (binade y - 52)"
    by (intro mult_right_mono) simp_all
  with True assms y show ?thesis by (simp add: double_pos_eq)
next
  case False
  have y: "0 < y" using assms by linarith
  from False binade_le [OF assms] have "binade x + 1 \<le> binade y" by simp
  then have "(2::real) powi (binade x + 1) \<le> 2 powi binade y"
    by (intro power_int_increasing) simp_all
  with double_in_binade(2) [OF assms(1)] double_in_binade(1) [OF y] show ?thesis by linarith
qed

lemma double_mono: assumes "x \<le> y" shows "double x \<le> double y"
proof -
  consider "0 < x" | "x = 0" | "x < 0" by linarith
  then show ?thesis
  proof cases
    case 1
    from this assms show ?thesis by (rule double_mono_pos)
  next
    case 2
    show ?thesis
    proof (cases "y = 0")
      case True
      with 2 show ?thesis by simp
    next
      case False
      with 2 assms have "0 < y" by linarith
      from double_pos [OF this] have "0 < double y" .
      moreover have "double x = 0" using 2 by (simp add: double_def)
      ultimately show ?thesis by simp
    qed
  next
    case 3
    consider "y < 0" | "y = 0" | "0 < y" by linarith
    then show ?thesis
    proof cases
      case 1
      then have "0 < - y" "- y \<le> - x" using assms by simp_all
      from double_mono_pos [OF this] show ?thesis by (simp add: double_minus)
    next
      case 2
      from 3 have "0 < - x" by simp
      from double_pos [OF this] have "double x < 0" by (simp add: double_minus)
      moreover have "double y = 0" using 2 by (simp add: double_def)
      ultimately show ?thesis by simp
    next
      case y: 3
      from 3 have "0 < - x" by simp
      from double_pos [OF this] double_pos [OF y] show ?thesis by (simp add: double_minus)
    qed
  qed
qed

lemma double_err_pos:
  assumes "0 < x"
  shows "\<bar>double x - x\<bar> \<le> x / 2 ^ 53"
proof -
  let ?m = "x * 2 powi (52 - binade x)"
  let ?u = "(2::real) powi (binade x - 52)"
  have m: "?m * ?u = x"
  proof -
    have "?m * ?u = x * (?u * 2 powi (52 - binade x))" by (simp add: mult_ac)
    then show ?thesis by (simp only: powi_shift mult_1_right)
  qed
  have "double x - x = (of_int (rhe ?m) - ?m) * ?u"
    using assms m by (simp add: double_pos_eq left_diff_distrib)
  then have "\<bar>double x - x\<bar> = \<bar>of_int (rhe ?m) - ?m\<bar> * ?u"
    by (simp add: abs_mult)
  also have "\<dots> \<le> 1 / 2 * ?u"
    using rhe_err [of ?m] by (intro mult_right_mono) simp_all
  also have "\<dots> = 2 powi binade x / 2 ^ 53"
  proof -
    have "(2::real) powi (binade x - 52) = 2 powi binade x * 2 powi (- 52)"
      by (subst power_int_add [symmetric]) simp_all
    then show ?thesis by (simp add: power_int_minus field_simps)
  qed
  also have "\<dots> \<le> x / 2 ^ 53"
    using binade_bounds(1) [OF assms] by (intro divide_right_mono) simp_all
  finally show ?thesis .
qed

lemma double_err: "\<bar>double x - x\<bar> \<le> \<bar>x\<bar> / 2 ^ 53"
proof -
  consider "0 < x" | "x = 0" | "x < 0" by linarith
  then show ?thesis
  proof cases
    case 1
    with double_err_pos [OF 1] show ?thesis by simp
  next
    case 2
    then show ?thesis by (simp add: double_def)
  next
    case 3
    then have p: "0 < - x" by simp
    have "\<bar>double x - x\<bar> = \<bar>double (- x) - (- x)\<bar>" by (simp add: double_minus)
    with double_err_pos [OF p] 3 show ?thesis by simp
  qed
qed


section \<open>Properties of the playback clock\<close>

lemma start_clock [simp]:
  "scriptStartTime (snd (startScriptExecution t s)) = t"
  "totalPausedTime (snd (startScriptExecution t s)) = 0"
  "scriptPauseTime (snd (startScriptExecution t s)) = scriptPauseTime s"
  "editorMode (snd (startScriptExecution t s)) = editorMode s"
  by (simp_all add: startScriptExecution_def split: prod.splits)

lemma getTime_mono: "a \<le> b \<Longrightarrow> getTime a s \<le> getTime b s"
  unfolding getTime_def js_div_def js_sub_def
  by (simp add: double_mono divide_right_mono)

lemma getTime_mode [simp]: "getTime t (s\<lparr>editorMode := m\<rparr>) = getTime t s"
  by (simp add: getTime_def)

lemma getTime_pause [simp]: "getTime t (pauseScriptExecution p s) = getTime t s"
  by (simp add: getTime_def pauseScriptExecution_def)

lemma getTime_error:
  fixes A T :: real
  defines "X \<equiv> \<bar>A\<bar> + \<bar>T\<bar>"
  shows "\<bar>double (double (double A - T) / 1000) - (A - T) / 1000\<bar> \<le> X / 1000 / 2 ^ 50"
proof -
  define U :: real where "U = 1 / 2 ^ 53"
  define E where "E = U * X"
  have U: "0 \<le> U" "U \<le> 1 / 4" by (simp_all add: U_def)
  have X: "0 \<le> X" by (simp add: X_def)
  have E: "0 \<le> E" using U X by (simp add: E_def)
  have EX: "E \<le> X / 4"
    using mult_right_mono [OF U(2) X] by (simp add: E_def)
  have err: "\<bar>double x - x\<bar> \<le> U * \<bar>x\<bar>" for x
    using double_err [of x] by (simp add: U_def)
  have scale: "\<bar>x\<bar> \<le> c * X \<Longrightarrow> U * \<bar>x\<bar> \<le> c * E" for x c
    using mult_left_mono [of "\<bar>x\<bar>" "c * X" U] U by (simp add: E_def mult_ac)
  define a where "a = double A"
  define d where "d = double (a - T)"
  define q where "q = double (d / 1000)"
  have "\<bar>A\<bar> \<le> 1 * X" by (simp add: X_def)
  from scale [OF this] have 1: "\<bar>a - A\<bar> \<le> E"
    using err [of A] by (simp add: a_def)
  have "\<bar>A\<bar> + \<bar>T\<bar> = X" by (simp add: X_def)
  then have 4: "\<bar>a - T\<bar> \<le> 2 * X" using 1 EX by linarith
  have 5: "\<bar>d - (a - T)\<bar> \<le> 2 * E" using err [of "a - T"] scale [OF 4] by (simp add: d_def)
  have db: "\<bar>d\<bar> \<le> 3 * X" using 4 5 EX by linarith
  have "\<bar>q - d / 1000\<bar> \<le> U * \<bar>d / 1000\<bar>" using err [of "d / 1000"] by (simp add: q_def)
  also have "\<dots> = U * \<bar>d\<bar> / 1000" by simp
  also have "\<dots> \<le> 3 * E / 1000" using scale [OF db] by (intro divide_right_mono) simp_all
  finally have 6: "\<bar>q - d / 1000\<bar> \<le> 3 * E / 1000" .
  have 7: "\<bar>d - (A - T)\<bar> \<le> 3 * E" using 1 5 by linarith
  have "\<bar>d / 1000 - (A - T) / 1000\<bar> = \<bar>d - (A - T)\<bar> / 1000"
    by (simp add: diff_divide_distrib [symmetric])
  with 7 have 8: "\<bar>d / 1000 - (A - T) / 1000\<bar> \<le> 3 * E / 1000" by simp
  have "\<bar>q - (A - T) / 1000\<bar> \<le> 6 * E / 1000" using 6 8 by linarith
  also have "\<dots> \<le> 8 * E / 1000" using E by simp
  also have "\<dots> = X / 1000 / 2 ^ 50" by (simp add: E_def U_def)
  finally show ?thesis by (simp add: q_def d_def a_def)
qed



text \<open>
  Claim C2, the claim as stated: the elapsed value never decreases while playing and is
  frozen while paused. Neither holds. Started at 1000 ms and paused at 2000 ms, a query at
  2500 ms and one at 3000 ms, both during the pause, get different answers: \<open>getTime\<close>
  does not read the pause timestamp. Started at 1 ms, queried and paused at the double 1.1
  and resumed and queried at the double 5.4, the second query answers less than the first
  (9.999999999999964e-5 after 1.0000000000000009e-4): the subtractions round.
\<close>

theorem C2_not_frozen_not_monotone_counterexample:
  "getTime 2500 (pauseScriptExecution 2000 (snd (startScriptExecution 1000 (new_system []))))
     \<noteq> getTime 3000 (pauseScriptExecution 2000 (snd (startScriptExecution 1000 (new_system []))))
   \<and> getTime (double (11 / 10)) (snd (startScriptExecution 1 (new_system [])))
       = 7378697629483827 / 73786976294838206464
   \<and> getTime (double (54 / 10))
       (resumeScriptExecution (double (54 / 10)) (pauseScriptExecution (double (11 / 10))
          (snd (startScriptExecution 1 (new_system [])))))
       = 3689348814741897 / 36893488147419103232
   \<and> (3689348814741897 / 36893488147419103232 :: real) < 7378697629483827 / 73786976294838206464"
  by (simp add: getTime_def pauseScriptExecution_def resumeScriptExecution_def
        double_eval field_simps)

text \<open>
  Claim C2, as amended. In every state of the clock the elapsed value does not decrease
  from one query to a later one as long as no play and no resume comes between them, and a
  pause does not change the answer to any query: while paused the value is not frozen but
  keeps following the wall clock. Once started, the value is
  \<open>(now - scriptStartTime - totalPausedTime) / 1000\<close> up to the rounding of the two
  subtractions and the division.
\<close>

theorem C2_clock_between_transitions:
  "(t \<le> t' \<longrightarrow> getTime t s \<le> getTime t' s)
   \<and> getTime t (pauseScriptExecution tp s) = getTime t s
   \<and> (scriptStartTime s \<noteq> 0 \<longrightarrow>
        \<bar>getTime t s - (t - scriptStartTime s - totalPausedTime s) / 1000\<bar>
          \<le> (\<bar>t - scriptStartTime s\<bar> + \<bar>totalPausedTime s\<bar>) / 1000 / 2 ^ 50)"
proof (intro conjI impI)
  assume "t \<le> t'"
  then show "getTime t s \<le> getTime t' s" by (rule getTime_mono)
next
  show "getTime t (pauseScriptExecution tp s) = getTime t s" by simp
next
  assume "scriptStartTime s \<noteq> 0"
  then show "\<bar>getTime t s - (t - scriptStartTime s - totalPausedTime s) / 1000\<bar>
          \<le> (\<bar>t - scriptStartTime s\<bar> + \<bar>totalPausedTime s\<bar>) / 1000 / 2 ^ 50"
    using getTime_error [of "t - scriptStartTime s" "totalPausedTime s"]
    by (simp add: getTime_def js_sub_def js_div_def)
qed

theorem C2_clock_between_transitions_witness:
  "getTime 1500 (snd (startScriptExecution 1000 (new_system []))) = 1 / 2
   \<and> getTime 2000 (snd (startScriptExecution 1000 (new_system []))) = 1
   \<and> getTime 1500 (snd (startScriptExecution 1000 (new_system [])))
       \<le> getTime 2000 (snd (startScriptExecution 1000 (new_system [])))
   \<and> getTime 1500 (pauseScriptExecution 1800 (snd (startScriptExecution 1000 (new_system []))))
       = getTime 1500 (snd (startScriptExecution 1000 (new_system [])))
   \<and> \<bar>getTime 1500 (snd (startScriptExecution 1000 (new_system []))) - (1500 - 1000 - 0) / 1000\<bar>
       \<le> (\<bar>1500 - 1000\<bar> + \<bar>0\<bar>) / 1000 / 2 ^ 50"
  using C2_clock_between_transitions [of 1500 2000 "snd (startScriptExecution 1000 (new_system []))" 1800]
  by (simp add: getTime_def double_eval field_simps)




section \<open>Script lifecycle\<close>

lemma count_concat_keyed:
  assumes "distinct (map fst xs)"
    and "\<And>k v. k \<noteq> e \<Longrightarrow> count_list (g k v) x = 0"
  shows "count_list (concat (map (\<lambda>(k, v). g k v) xs)) x =
           (case map_of xs e of None \<Rightarrow> 0 | Some v \<Rightarrow> count_list (g e v) x)"
  using assms(1)
proof (induction xs)
  case Nil
  then show ?case by simp
next
  case (Cons p xs)
  obtain k v where p: "p = (k, v)" by (cases p)
  show ?case
  proof (cases "k = e")
    case True
    with Cons.prems p have "e \<notin> fst ` set xs" by auto
    then have "map_of xs e = None" by (simp add: map_of_eq_None_iff)
    with Cons p True show ?thesis by simp
  next
    case False
    with Cons p assms(2) show ?thesis by simp
  qed
qed

lemma distinct_takeWhile_keys:
  "distinct (map fst xs) \<Longrightarrow> distinct (map fst (takeWhile P xs))"
  by (induction xs) (auto dest: set_takeWhileD)

lemma map_of_takeWhile:
  "distinct (map fst xs) \<Longrightarrow>
   map_of (takeWhile P xs) e =
     (if e \<in> set (map fst (takeWhile P xs)) then map_of xs e else None)"
proof (induction xs)
  case Nil
  then show ?case by simp
next
  case (Cons p xs)
  obtain k v where p: "p = (k, v)" by (cases p)
  from Cons.prems p have k: "k \<notin> fst ` set xs" and d: "distinct (map fst xs)" by auto
  have ne: "e \<in> fst ` set (takeWhile P xs) \<Longrightarrow> e \<noteq> k"
    using k by (auto dest: set_takeWhileD)
  show ?case
  proof (cases "P (k, v)")
    case True
    show ?thesis
    proof (cases "e = k")
      case True
      with \<open>P (k, v)\<close> p show ?thesis by simp
    next
      case False
      with \<open>P (k, v)\<close> p Cons.IH [OF d] show ?thesis by simp
    qed
  next
    case False
    with p show ?thesis by simp
  qed
qed

lemma start_entity_raises:
  "fst (start_entity e comps) = None \<longleftrightarrow> \<not> start_raises comps"
  by (auto simp: start_entity_def start_raises_def reset_time_def
           split: option.splits component.splits)

lemma start_entity_raised:
  "start_raises comps \<Longrightarrow> start_entity e comps = (Some (ContextError e), comps, [])"
  by (auto simp: start_entity_def start_raises_def reset_time_def
           split: option.splits component.splits)

lemma start_entities_events:
  "snd (snd (start_entities store)) =
     concat (map (\<lambda>(e, comps). snd (snd (start_entity e comps)))
               (takeWhile (\<lambda>(e, comps). \<not> start_raises comps) store))"
proof (induction store)
  case Nil
  show ?case by simp
next
  case (Cons p store)
  obtain e comps where p: "p = (e, comps)" by (cases p)
  show ?case
  proof (cases "start_raises comps")
    case True
    then show ?thesis by (simp add: p start_entity_raised)
  next
    case False
    then have "fst (start_entity e comps) = None" by (simp add: start_entity_raises)
    then obtain comps' evs where se: "start_entity e comps = (None, comps', evs)"
      by (cases "start_entity e comps") simp
    obtain r rest' evs' where sr: "start_entities store = (r, rest', evs')"
      by (cases "start_entities store")
    from Cons False se sr show ?thesis by (simp add: p)
  qed
qed

lemma start_entities_result:
  "fst (start_entities store) = None \<longleftrightarrow>
     takeWhile (\<lambda>(e, comps). \<not> start_raises comps) store = store"
proof (induction store)
  case Nil
  show ?case by simp
next
  case (Cons p store)
  obtain e comps where p: "p = (e, comps)" by (cases p)
  show ?case
  proof (cases "start_raises comps")
    case True
    then show ?thesis by (simp add: p start_entity_raised)
  next
    case False
    then have "fst (start_entity e comps) = None" by (simp add: start_entity_raises)
    then obtain comps' evs where se: "start_entity e comps = (None, comps', evs)"
      by (cases "start_entity e comps") simp
    obtain r rest' evs' where sr: "start_entities store = (r, rest', evs')"
      by (cases "start_entities store")
    from Cons False se sr show ?thesis by (simp add: p)
  qed
qed

lemma start_entity_other:
  "k \<noteq> e \<Longrightarrow> count_list (snd (snd (start_entity k comps))) (HookCalled e h) = 0"
  "k \<noteq> e \<Longrightarrow> count_list (snd (snd (start_entity k comps))) (ConsoleError (StartFailed e)) = 0"
  by (auto simp: start_entity_def split: option.splits component.splits outcome.splits)

lemma start_entity_count:
  "\<not> start_raises comps \<Longrightarrow>
   count_list (snd (snd (start_entity e comps))) (HookCalled e HStart) =
     (case map_of comps ''Script'' of
        Some (Script sc) \<Rightarrow>
          (case scriptInstance sc of
             Some inst \<Rightarrow> (if inst_start inst \<noteq> None then 1 else 0)
           | None \<Rightarrow> 0)
      | _ \<Rightarrow> 0)"
  "\<not> start_raises comps \<Longrightarrow>
   count_list (snd (snd (start_entity e comps))) (ConsoleError (StartFailed e)) =
     (case map_of comps ''Script'' of
        Some (Script sc) \<Rightarrow>
          (case scriptInstance sc of
             Some inst \<Rightarrow> (if inst_start inst = Some Throws then 1 else 0)
           | None \<Rightarrow> 0)
      | _ \<Rightarrow> 0)"
  by (auto simp: start_entity_def start_raises_def reset_time_def
           split: option.splits component.splits outcome.splits)

lemma trace_start:
  "trace (snd (startScriptExecution now s)) =
     trace s @ concat (map (\<lambda>(e, comps). snd (snd (start_entity e comps)))
                         (takeWhile (\<lambda>(e, comps). \<not> start_raises comps) (entityComponents s)))"
proof -
  obtain r store' evs where sr: "start_entities (entityComponents s) = (r, store', evs)"
    by (cases "start_entities (entityComponents s)")
  with start_entities_events [of "entityComponents s"] show ?thesis
    by (simp add: startScriptExecution_def)
qed

lemma started_lookup:
  assumes "map_of (takeWhile (\<lambda>(e, comps). \<not> start_raises comps) store) e = Some comps"
  shows "\<not> start_raises comps"
proof -
  from assms have "(e, comps) \<in> set (takeWhile (\<lambda>(e, comps). \<not> start_raises comps) store)"
    by (rule map_of_SomeD)
  then show ?thesis by (auto dest: set_takeWhileD)
qed

lemma start_count:
  assumes "store_wf s"
  shows "count_list (trace (snd (startScriptExecution now s))) (HookCalled e HStart) =
           count_list (trace s) (HookCalled e HStart)
             + (if e \<in> set (started_entities s) \<and> script_hook HStart e s \<noteq> None then 1 else 0)"
    and "count_list (trace (snd (startScriptExecution now s))) (ConsoleError (StartFailed e)) =
           count_list (trace s) (ConsoleError (StartFailed e))
             + (if e \<in> set (started_entities s) \<and> script_hook HStart e s = Some Throws then 1 else 0)"
proof -
  let ?live = "takeWhile (\<lambda>(e, comps). \<not> start_raises comps) (entityComponents s)"
  from assms have d0: "distinct (map fst (entityComponents s))" by (simp add: store_wf_def)
  then have d: "distinct (map fst ?live)" by (rule distinct_takeWhile_keys)
  have m: "map_of ?live e = (if e \<in> set (started_entities s) then map_of (entityComponents s) e else None)"
    using map_of_takeWhile [OF d0] by (simp add: started_entities_def)
  have a: "count_list (concat (map (\<lambda>(k, v). snd (snd (start_entity k v))) ?live)) (HookCalled e HStart)
             = (if e \<in> set (started_entities s) \<and> script_hook HStart e s \<noteq> None then 1 else 0)"
  proof (subst count_concat_keyed [OF d, where e = e])
    show "\<And>k v. k \<noteq> e \<Longrightarrow> count_list (snd (snd (start_entity k v))) (HookCalled e HStart) = 0"
      by (rule start_entity_other)
    show "(case map_of ?live e of None \<Rightarrow> 0
           | Some v \<Rightarrow> count_list (snd (snd (start_entity e v))) (HookCalled e HStart))
          = (if e \<in> set (started_entities s) \<and> script_hook HStart e s \<noteq> None then 1 else 0)"
    proof (cases "map_of ?live e")
      case None
      with m show ?thesis
        by (auto simp: script_hook_def getComponent_def split: option.splits if_splits)
    next
      case (Some comps)
      from started_lookup [OF Some] have "\<not> start_raises comps" .
      with Some m show ?thesis
        by (auto simp: start_entity_count script_hook_def getComponent_def
                 split: option.splits component.splits if_splits)
    qed
  qed
  have b: "count_list (concat (map (\<lambda>(k, v). snd (snd (start_entity k v))) ?live))
             (ConsoleError (StartFailed e))
             = (if e \<in> set (started_entities s) \<and> script_hook HStart e s = Some Throws then 1 else 0)"
  proof (subst count_concat_keyed [OF d, where e = e])
    show "\<And>k v. k \<noteq> e \<Longrightarrow>
            count_list (snd (snd (start_entity k v))) (ConsoleError (StartFailed e)) = 0"
      by (rule start_entity_other)
    show "(case map_of ?live e of None \<Rightarrow> 0
           | Some v \<Rightarrow> count_list (snd (snd (start_entity e v))) (ConsoleError (StartFailed e)))
          = (if e \<in> set (started_entities s) \<and> script_hook HStart e s = Some Throws then 1 else 0)"
    proof (cases "map_of ?live e")
      case None
      with m show ?thesis
        by (auto simp: script_hook_def getComponent_def split: option.splits if_splits)
    next
      case (Some comps)
      from started_lookup [OF Some] have "\<not> start_raises comps" .
      with Some m show ?thesis
        by (auto simp: start_entity_count script_hook_def getComponent_def
                 split: option.splits component.splits if_splits)
    qed
  qed
  show "count_list (trace (snd (startScriptExecution now s))) (HookCalled e HStart) =
           count_list (trace s) (HookCalled e HStart)
             + (if e \<in> set (started_entities s) \<and> script_hook HStart e s \<noteq> None then 1 else 0)"
    using a by (simp add: trace_start)
  show "count_list (trace (snd (startScriptExecution now s))) (ConsoleError (StartFailed e)) =
           count_list (trace s) (ConsoleError (StartFailed e))
             + (if e \<in> set (started_entities s) \<and> script_hook HStart e s = Some Throws then 1 else 0)"
    using b by (simp add: trace_start)
qed

lemma start_result:
  "fst (startScriptExecution now s) = Inr () \<longleftrightarrow>
     started_entities s = map fst (entityComponents s)"
proof -
  let ?P = "\<lambda>(e, comps). \<not> start_raises comps"
  have "fst (startScriptExecution now s) = Inr () \<longleftrightarrow> fst (start_entities (entityComponents s)) = None"
    by (simp add: startScriptExecution_def split: prod.splits option.splits)
  also have "\<dots> \<longleftrightarrow> takeWhile ?P (entityComponents s) = entityComponents s"
    by (rule start_entities_result)
  also have "\<dots> \<longleftrightarrow> map fst (takeWhile ?P (entityComponents s)) = map fst (entityComponents s)"
  proof
    assume "takeWhile ?P (entityComponents s) = entityComponents s"
    then show "map fst (takeWhile ?P (entityComponents s)) = map fst (entityComponents s)"
      by (rule arg_cong)
  next
    assume "map fst (takeWhile ?P (entityComponents s)) = map fst (entityComponents s)"
    then have "length (takeWhile ?P (entityComponents s)) = length (entityComponents s)"
      by (metis length_map)
    then show "takeWhile ?P (entityComponents s) = entityComponents s"
      by (metis takeWhile_eq_take take_all order_refl)
  qed
  finally show ?thesis by (simp add: started_entities_def)
qed

text \<open>
  Claim C6, the claim as stated: a component whose \<^verbatim>\<open>enabled\<close> flag is false is skipped.
  It is not: \<^verbatim>\<open>startScriptExecution\<close> tests the component and its \<^verbatim>\<open>scriptInstance\<close> only,
  and the disabled script of the example has its \<^verbatim>\<open>start\<close> called.
\<close>

theorem C6_disabled_script_started_counterexample:
  "getComponent ''e1'' ''Script'' ex_disabled \<noteq> None
   \<and> (case getComponent ''e1'' ''Script'' ex_disabled of Some (Script sc) \<Rightarrow> enabled sc | _ \<Rightarrow> True) = False
   \<and> count_list (trace (snd (startScriptExecution 1000 ex_disabled))) (HookCalled ''e1'' HStart) = 1"
  by (simp add: ex_disabled_def eval_defs)

text \<open>
  Claim C6, as amended. On a play transition the loop over the entities goes on until it
  meets a Script component whose compiled instance has a context that refuses the writes
  of its time fields (the script text has rebound \<^verbatim>\<open>time\<close>); these writes are outside the
  \<^verbatim>\<open>try\<close>, so there the error leaves \<^verbatim>\<open>startScriptExecution\<close>, and neither that script
  nor those of the later entities are started. For the entities before that point (all of
  them when no context refuses) \<^verbatim>\<open>start()\<close> is called exactly once if the Script component
  has a compiled instance with a \<^verbatim>\<open>start\<close> hook, and not otherwise; the \<^verbatim>\<open>enabled\<close> flag is
  not consulted. A \<^verbatim>\<open>start\<close> that throws is caught and logged once, and the count for every
  other entity is what it is without the throw.
\<close>

theorem C6_start_once_per_instance:
  assumes "store_wf s"
  shows "count_list (trace (snd (startScriptExecution now s))) (HookCalled e HStart) =
           count_list (trace s) (HookCalled e HStart)
             + (if e \<in> set (started_entities s) \<and> script_hook HStart e s \<noteq> None then 1 else 0)
       \<and> count_list (trace (snd (startScriptExecution now s))) (ConsoleError (StartFailed e)) =
           count_list (trace s) (ConsoleError (StartFailed e))
             + (if e \<in> set (started_entities s) \<and> script_hook HStart e s = Some Throws then 1 else 0)
       \<and> (fst (startScriptExecution now s) = Inr () \<longleftrightarrow>
            started_entities s = map fst (entityComponents s))"
  using start_count [OF assms] start_result by blast

lemma ex_starters_wf: "store_wf ex_starters"
  by (simp add: ex_starters_def eval_defs)

lemma ex_starters_fields:
  "started_entities ex_starters = [''e1'', ''e2'', ''e3'']"
  "map fst (entityComponents ex_starters) = [''e1'', ''e2'', ''e3'']"
  "script_hook HStart ''e1'' ex_starters = Some Returns"
  "script_hook HStart ''e2'' ex_starters = Some Throws"
  "script_hook HStart ''e3'' ex_starters = Some Returns"
  "count_list (trace ex_starters) (HookCalled e HStart) = 0"
  "count_list (trace ex_starters) (ConsoleError (StartFailed e)) = 0"
  by (simp_all add: ex_starters_def eval_defs)

lemma ex_rebound_wf: "store_wf ex_rebound"
  by (simp add: ex_rebound_def eval_defs)

lemma ex_rebound_fields:
  "started_entities ex_rebound = []"
  "map fst (entityComponents ex_rebound) = [''e1'', ''e2'']"
  "script_hook HStart ''e1'' ex_rebound = Some Returns"
  "script_hook HStart ''e2'' ex_rebound = Some Returns"
  "count_list (trace ex_rebound) (HookCalled e HStart) = 0"
  "fst (startScriptExecution 1000 ex_rebound) = Inl (ContextError ''e1'')"
  by (simp_all add: ex_rebound_def eval_defs)

theorem C6_start_once_per_instance_witness:
  "store_wf ex_starters \<and> store_wf ex_rebound
   \<and> fst (startScriptExecution 1000 ex_starters) = Inr ()
   \<and> count_list (trace (snd (startScriptExecution 1000 ex_starters))) (HookCalled ''e1'' HStart) = 1
   \<and> count_list (trace (snd (startScriptExecution 1000 ex_starters))) (HookCalled ''e2'' HStart) = 1
   \<and> count_list (trace (snd (startScriptExecution 1000 ex_starters))) (ConsoleError (StartFailed ''e2'')) = 1
   \<and> count_list (trace (snd (startScriptExecution 1000 ex_starters))) (HookCalled ''e3'' HStart) = 1
   \<and> fst (startScriptExecution 1000 ex_rebound) = Inl (ContextError ''e1'')
   \<and> script_hook HStart ''e1'' ex_rebound = Some Returns
   \<and> script_hook HStart ''e2'' ex_rebound = Some Returns
   \<and> count_list (trace (snd (startScriptExecution 1000 ex_rebound))) (HookCalled ''e1'' HStart) = 0
   \<and> count_list (trace (snd (startScriptExecution 1000 ex_rebound))) (HookCalled ''e2'' HStart) = 0"
  using C6_start_once_per_instance [OF ex_starters_wf, of 1000 "''e1''"]
        C6_start_once_per_instance [OF ex_starters_wf, of 1000 "''e2''"]
        C6_start_once_per_instance [OF ex_starters_wf, of 1000 "''e3''"]
        C6_start_once_per_instance [OF ex_rebound_wf, of 1000 "''e1''"]
        C6_start_once_per_instance [OF ex_rebound_wf, of 1000 "''e2''"]
        ex_starters_wf ex_rebound_wf
  by (simp add: ex_starters_fields ex_rebound_fields)

lemma stop_entity_other:
  "k \<noteq> e \<Longrightarrow> count_list (stop_entity k comps) (HookCalled e h) = 0"
  "k \<noteq> e \<Longrightarrow> count_list (stop_entity k comps) (ConsoleError (StopFailed e)) = 0"
  by (auto simp: stop_entity_def split: option.splits component.splits outcome.splits)

lemma stop_entity_count:
  "count_list (stop_entity e comps) (HookCalled e HOnDestroy) =
     (case map_of comps ''Script'' of
        Some (Script sc) \<Rightarrow>
          (case scriptInstance sc of
             Some inst \<Rightarrow> (if inst_onDestroy inst \<noteq> None then 1 else 0)
           | None \<Rightarrow> 0)
      | _ \<Rightarrow> 0)"
  "count_list (stop_entity e comps) (ConsoleError (StopFailed e)) =
     (case map_of comps ''Script'' of
        Some (Script sc) \<Rightarrow>
          (case scriptInstance sc of
             Some inst \<Rightarrow> (if inst_onDestroy inst = Some Throws then 1 else 0)
           | None \<Rightarrow> 0)
      | _ \<Rightarrow> 0)"
  by (auto simp: stop_entity_def split: option.splits component.splits outcome.splits)

lemma reset_clock [simp]:
  "scriptStartTime (snd (resetScriptExecution s)) = 0"
  "scriptPauseTime (snd (resetScriptExecution s)) = 0"
  "totalPausedTime (snd (resetScriptExecution s)) = 0"
  "trace (snd (resetScriptExecution s)) = trace s"
  by (simp_all add: resetScriptExecution_def split: prod.splits)

text \<open>
  Claim C7. The stop transition runs \<^verbatim>\<open>stopScriptExecution\<close> and then
  \<^verbatim>\<open>resetScriptExecution\<close>. \<^verbatim>\<open>onDestroy()\<close> is called once for every entity whose Script
  component has a compiled instance with that hook; one that throws is caught and logged,
  and the others are still called. Afterwards the three clock fields are zero and the
  elapsed-time query answers 0 at every time; this is so in the state that
  \<^verbatim>\<open>resetScriptExecution\<close> leaves whether or not its loop over the contexts has thrown,
  the fields being zeroed before the loop.
\<close>

theorem C7_stop_destroys_and_resets:
  assumes "store_wf s"
  shows "count_list (trace (snd (resetScriptExecution (stopScriptExecution s)))) (HookCalled e HOnDestroy) =
           count_list (trace s) (HookCalled e HOnDestroy)
             + (if script_hook HOnDestroy e s \<noteq> None then 1 else 0)
       \<and> count_list (trace (snd (resetScriptExecution (stopScriptExecution s)))) (ConsoleError (StopFailed e)) =
           count_list (trace s) (ConsoleError (StopFailed e))
             + (if script_hook HOnDestroy e s = Some Throws then 1 else 0)
       \<and> scriptStartTime (snd (resetScriptExecution (stopScriptExecution s))) = 0
       \<and> scriptPauseTime (snd (resetScriptExecution (stopScriptExecution s))) = 0
       \<and> totalPausedTime (snd (resetScriptExecution (stopScriptExecution s))) = 0
       \<and> getTime now (snd (resetScriptExecution (stopScriptExecution s))) = 0"
proof -
  from assms have d: "distinct (map fst (entityComponents s))" by (simp add: store_wf_def)
  have a: "count_list (concat (map (\<lambda>(k, v). stop_entity k v) (entityComponents s)))
             (HookCalled e HOnDestroy) = (if script_hook HOnDestroy e s \<noteq> None then 1 else 0)"
    by (subst count_concat_keyed [OF d, where e = e])
       (auto simp: stop_entity_other stop_entity_count script_hook_def getComponent_def
             split: option.splits component.splits)
  have b: "count_list (concat (map (\<lambda>(k, v). stop_entity k v) (entityComponents s)))
             (ConsoleError (StopFailed e)) = (if script_hook HOnDestroy e s = Some Throws then 1 else 0)"
    by (subst count_concat_keyed [OF d, where e = e])
       (auto simp: stop_entity_other stop_entity_count script_hook_def getComponent_def
             split: option.splits component.splits)
  have c: "scriptStartTime (snd (resetScriptExecution (stopScriptExecution s))) = 0
       \<and> scriptPauseTime (snd (resetScriptExecution (stopScriptExecution s))) = 0
       \<and> totalPausedTime (snd (resetScriptExecution (stopScriptExecution s))) = 0
       \<and> getTime now (snd (resetScriptExecution (stopScriptExecution s))) = 0"
    by (simp add: getTime_def)
  show ?thesis using a b c by (simp add: stopScriptExecution_def)
qed

lemma ex_playing_wf: "store_wf ex_playing"
  by (simp add: ex_playing_def eval_defs)

lemma ex_playing_fields:
  "script_hook HOnDestroy ''e1'' ex_playing = Some Returns"
  "script_hook HOnDestroy ''e2'' ex_playing = Some Throws"
  "count_list (trace ex_playing) (HookCalled e HOnDestroy) = 0"
  "count_list (trace ex_playing) (ConsoleError (StopFailed e)) = 0"
  "scriptStartTime ex_playing = 1000"
  "totalPausedTime ex_playing = 0"
  by (simp_all add: ex_playing_def eval_defs)

theorem C7_stop_destroys_and_resets_witness:
  "store_wf ex_playing
   \<and> count_list (trace (snd (resetScriptExecution (stopScriptExecution ex_playing)))) (HookCalled ''e1'' HOnDestroy) = 1
   \<and> count_list (trace (snd (resetScriptExecution (stopScriptExecution ex_playing)))) (HookCalled ''e2'' HOnDestroy) = 1
   \<and> count_list (trace (snd (resetScriptExecution (stopScriptExecution ex_playing)))) (ConsoleError (StopFailed ''e2'')) = 1
   \<and> getTime 5000 ex_playing = 4
   \<and> getTime 5000 (snd (resetScriptExecution (stopScriptExecution ex_playing))) = 0"
  using C7_stop_destroys_and_resets [OF ex_playing_wf, of "''e1''" 5000]
        C7_stop_destroys_and_resets [OF ex_playing_wf, of "''e2''" 5000]
        ex_playing_wf
  by (simp add: ex_playing_fields getTime_def double_eval)

section \<open>Script compilation\<close>

lemma update_calls_append [simp]: "update_calls (xs @ ys) = update_calls xs @ update_calls ys"
  by (induction xs rule: update_calls.induct) simp_all

lemma Script_update_silent [simp]:
  "update_calls (snd (snd (Script_update now dt s sc))) = []"
  by (auto simp: Script_update_def call_update_hook_def Let_def
           split: option.splits outcome.splits)

lemma Script_update_raises:
  "fst (Script_update now dt s sc) = None \<longleftrightarrow> \<not> script_update_raises s sc"
  by (auto simp: Script_update_def script_update_raises_def Let_def
           split: option.splits outcome.splits)

lemma call_update_hook_mem:
  "HookCalled (entity sc) HUpdate \<in> set (call_update_hook sc inst) \<longleftrightarrow> inst_update inst \<noteq> None"
  by (cases "inst_update inst") (simp_all add: call_update_hook_def split: outcome.splits)

lemma Script_update_hook_called:
  "HookCalled (entity sc) HUpdate \<in> set (snd (snd (Script_update now dt s sc)))
     \<longleftrightarrow> reached_update_hook s sc \<noteq> None"
proof (cases "scriptInstance sc")
  case None
  then show ?thesis by (simp add: Script_update_def reached_update_hook_def)
next
  case (Some inst)
  show ?thesis
  proof (cases "ctx inst")
    case None
    with Some show ?thesis
      by (simp add: Script_update_def reached_update_hook_def script_update_raises_def
            call_update_hook_mem)
  next
    case (Some c)
    with \<open>scriptInstance sc = Some inst\<close> show ?thesis
      by (simp add: Script_update_def reached_update_hook_def script_update_raises_def
            call_update_hook_mem Let_def)
  qed
qed

lemma Script_update_hook_throws:
  assumes "reached_update_hook s sc = Some Throws"
  shows "fst (Script_update now dt s sc) = None"
    and "snd (snd (Script_update now dt s sc))
           = [HookCalled (entity sc) HUpdate, ConsoleError (UpdateFailed (entity sc))]"
proof -
  from assms obtain inst where i: "scriptInstance sc = Some inst"
    by (cases "scriptInstance sc") (simp_all add: reached_update_hook_def)
  from assms i have h: "inst_update inst = Some Throws"
    and on: "enabled sc" "editorMode s = ''play''" and q: "\<not> script_update_raises s sc"
    and r: "ctx inst = None \<or> entity sc \<in> set (sceneObjects s)"
    by (simp_all add: reached_update_hook_def split: if_splits)
  from q show "fst (Script_update now dt s sc) = None" by (simp add: Script_update_raises)
  show "snd (snd (Script_update now dt s sc))
           = [HookCalled (entity sc) HUpdate, ConsoleError (UpdateFailed (entity sc))]"
  proof (cases "ctx inst")
    case None
    with i h on show ?thesis by (simp add: Script_update_def call_update_hook_def)
  next
    case (Some c)
    with i h on q r show ?thesis
      by (simp add: Script_update_def call_update_hook_def script_update_raises_def Let_def)
  qed
qed

text \<open>
  Claim C1, the claim as stated: after a failed compilation \<^verbatim>\<open>scriptInstance\<close> is null and
  no hook is set. A script whose text throws when run is left with the instance that was
  assigned before the run. When the text has assigned \<^verbatim>\<open>this.update\<close> before it throws, the
  instance has that hook, and \<^verbatim>\<open>Script.update\<close> then calls it. When the text has set
  \<^verbatim>\<open>time\<close> to \<^verbatim>\<open>null\<close> before it throws, \<^verbatim>\<open>Script.update\<close> throws on the instance.
\<close>

theorem C1_eval_error_leaves_instance_counterexample:
  "(case getComponent ''e1'' ''Script'' ex_broken of
      Some (Script sc) \<Rightarrow> scriptInstance sc \<noteq> None
    | _ \<Rightarrow> False)
   \<and> (case getComponent ''e1'' ''Script'' ex_assigning of
      Some (Script sc) \<Rightarrow>
        map_option inst_update (scriptInstance sc) = Some (Some Returns)
        \<and> snd (snd (Script_update 2000 16 ex_assigning sc)) = [HookCalled ''e1'' HUpdate]
    | _ \<Rightarrow> False)
   \<and> ConsoleError (CompileFailed ''e1'') \<in> set (trace ex_assigning)
   \<and> scriptInstance (fst (compileScript sample_js [''e1''] (ex_script ''time = null; throw 1''))) \<noteq> None
   \<and> fst (Script_update 2000 16 ((new_system [''e1''])\<lparr>editorMode := ''play''\<rparr>)
        (fst (compileScript sample_js [''e1''] (ex_script ''time = null; throw 1''))))
       = Some (ContextError ''e1'')"
  by (simp add: ex_broken_def ex_assigning_def ex_script_def eval_defs Script_update_def
        call_update_hook_def)

text \<open>
  Claim C1, as amended. An error raised while parsing or evaluating the script text never
  leaves \<^verbatim>\<open>compileScript\<close>; it is logged once. When the text does not parse, the component
  is unchanged: \<^verbatim>\<open>scriptInstance\<close> keeps its value, null on a first compile and the previous
  instance after \<^verbatim>\<open>setScript\<close>. When running the text throws, \<^verbatim>\<open>scriptInstance\<close> is the new
  instance as the run has left it: its hooks are those the text has assigned through
  \<^verbatim>\<open>this\<close> before the throw, and none is copied from the context. On that instance
  \<^verbatim>\<open>update\<close> throws exactly when the component is enabled, the scene is playing and the
  text has left a context that refuses the refresh, and it calls no hook but one assigned
  through \<^verbatim>\<open>this\<close>. A null \<^verbatim>\<open>scriptInstance\<close> makes \<^verbatim>\<open>update\<close> a no-op; so it is after a first
  compile of a text that does not parse.
\<close>

theorem C1_compile_failure:
  "(js (scriptCode sc) = SyntaxError \<longrightarrow>
      compileScript js objs sc = (sc, [ConsoleError (CompileFailed (entity sc))]))
   \<and> (js (scriptCode sc) = Ran eff \<and> threw eff \<longrightarrow>
      snd (compileScript js objs sc) = [ConsoleError (CompileFailed (entity sc))]
      \<and> (\<exists>inst. fst (compileScript js objs sc) = sc\<lparr>scriptInstance := Some inst\<rparr>
            \<and> inst_start inst = this_start eff
            \<and> inst_update inst = this_update eff
            \<and> inst_onDestroy inst = this_onDestroy eff))
   \<and> (js (scriptCode sc) = Ran eff \<and> threw eff \<longrightarrow>
      (fst (Script_update now dt s (fst (compileScript js objs sc))) = None \<longleftrightarrow>
         \<not> (enabled sc \<and> editorMode s = ''play'' \<and> this_context eff \<and>
            (on_time_write eff = Throws \<or> on_getTime eff = Throws \<or>
             (entity sc \<in> set (sceneObjects s) \<and> on_object_write eff = Throws))))
      \<and> (HookCalled (entity sc) HUpdate
            \<in> set (snd (snd (Script_update now dt s (fst (compileScript js objs sc)))))
          \<longrightarrow> this_update eff \<noteq> None))
   \<and> (js code = SyntaxError \<longrightarrow>
      scriptInstance (fst (setScript js objs name code sc)) = scriptInstance sc)
   \<and> (scriptInstance sc = None \<longrightarrow> Script_update now dt s sc = (None, sc, []))
   \<and> (js (scriptCode sc) = SyntaxError \<and> scriptInstance sc = None \<longrightarrow>
      Script_update now dt s (fst (compileScript js objs sc))
        = (None, fst (compileScript js objs sc), []))"
proof -
  have a: "js (scriptCode sc) = SyntaxError \<longrightarrow>
      compileScript js objs sc = (sc, [ConsoleError (CompileFailed (entity sc))])"
    by (simp add: compileScript_def)
  have b: "js (scriptCode sc) = Ran eff \<and> threw eff \<longrightarrow>
      snd (compileScript js objs sc) = [ConsoleError (CompileFailed (entity sc))]
      \<and> (\<exists>inst. fst (compileScript js objs sc) = sc\<lparr>scriptInstance := Some inst\<rparr>
            \<and> inst_start inst = this_start eff
            \<and> inst_update inst = this_update eff
            \<and> inst_onDestroy inst = this_onDestroy eff)"
    by (auto simp: compileScript_def after_run_def Let_def)
  have c: "js (scriptCode sc) = Ran eff \<and> threw eff \<longrightarrow>
      (fst (Script_update now dt s (fst (compileScript js objs sc))) = None \<longleftrightarrow>
         \<not> (enabled sc \<and> editorMode s = ''play'' \<and> this_context eff \<and>
            (on_time_write eff = Throws \<or> on_getTime eff = Throws \<or>
             (entity sc \<in> set (sceneObjects s) \<and> on_object_write eff = Throws))))"
    by (simp add: Script_update_raises script_update_raises_def compileScript_def after_run_def
          Let_def)
  have d: "js (scriptCode sc) = Ran eff \<and> threw eff \<longrightarrow>
      (HookCalled (entity sc) HUpdate
            \<in> set (snd (snd (Script_update now dt s (fst (compileScript js objs sc)))))
          \<longrightarrow> this_update eff \<noteq> None)"
  proof (intro impI)
    assume r: "js (scriptCode sc) = Ran eff \<and> threw eff"
    let ?sc = "fst (compileScript js objs sc)"
    assume "HookCalled (entity sc) HUpdate \<in> set (snd (snd (Script_update now dt s ?sc)))"
    moreover from r have e: "entity ?sc = entity sc"
      by (simp add: compileScript_def Let_def)
    ultimately have "reached_update_hook s ?sc \<noteq> None"
      using Script_update_hook_called [of ?sc now dt s] by simp
    with r show "this_update eff \<noteq> None"
      by (auto simp: reached_update_hook_def compileScript_def after_run_def Let_def
               split: if_splits)
  qed
  have e: "js code = SyntaxError \<longrightarrow>
      scriptInstance (fst (setScript js objs name code sc)) = scriptInstance sc"
    by (simp add: setScript_def compileScript_def)
  have f: "scriptInstance sc = None \<longrightarrow> Script_update now dt s sc = (None, sc, [])"
    by (simp add: Script_update_def)
  have g: "js (scriptCode sc) = SyntaxError \<and> scriptInstance sc = None \<longrightarrow>
      Script_update now dt s (fst (compileScript js objs sc))
        = (None, fst (compileScript js objs sc), [])"
    by (simp add: compileScript_def Script_update_def)
  from a b c d e f g show ?thesis by blast
qed

theorem C1_compile_failure_witness:
  "sample_js ''function ('' = SyntaxError
   \<and> scriptInstance (fst (compileScript sample_js [''e1''] (ex_script ''function (''))) = None
   \<and> Script_update 2000 16 ((new_system [''e1''])\<lparr>editorMode := ''play''\<rparr>)
        (fst (compileScript sample_js [''e1''] (ex_script ''function ('')))
       = (None, ex_script ''function ('', [])
   \<and> sample_js ''this.update = function(){}; throw 1''
       = Ran (quiet_run\<lparr>threw := True, this_update := Some Returns\<rparr>)
   \<and> map_option inst_update
        (scriptInstance (fst (compileScript sample_js [''e1'']
           (ex_script ''this.update = function(){}; throw 1'')))) = Some (Some Returns)
   \<and> map_option inst_start
        (scriptInstance (fst (compileScript sample_js [''e1'']
           (ex_script ''this.update = function(){}; throw 1'')))) = Some None"
  using C1_compile_failure [of sample_js "ex_script ''function (''" "[''e1'']"
          "quiet_run" 2000 16 "(new_system [''e1''])\<lparr>editorMode := ''play''\<rparr>"
          "''function (''" "[]"]
        C1_compile_failure [of sample_js "ex_script ''this.update = function(){}; throw 1''" "[''e1'']"
          "quiet_run\<lparr>threw := True, this_update := Some Returns\<rparr>"
          2000 16 "(new_system [''e1''])\<lparr>editorMode := ''play''\<rparr>" "''function (''" "[]"]
  by (simp add: ex_script_def eval_defs Script_update_def)

section \<open>Bus notifications of the store\<close>

lemma emissions_simps [simp]:
  "emissions [] = []"
  "emissions (xs @ ys) = emissions xs @ emissions ys"
  "emissions (Emitted name e n c # evs) = Emitted name e n c # emissions evs"
  "emissions (ConsoleLog m # evs) = emissions evs"
  "emissions (ConsoleWarn m # evs) = emissions evs"
  "emissions (ConsoleError m # evs) = emissions evs"
  "emissions (HookCalled e h # evs) = emissions evs"
  "emissions (DestroyCalled e n # evs) = emissions evs"
  "emissions (UpdateCalled e n dt # evs) = emissions evs"
  by (simp_all add: emissions_def)

lemma construct_no_emission:
  "construct js objs cls r e d = Inr (c, evs) \<Longrightarrow> emissions evs = []"
  by (auto simp: construct_def Script_new_def compileScript_def Let_def
           split: component_class.splits sum.splits js_data.splits if_splits js_result.splits)

lemma destroy_no_emission:
  "emissions (snd (snd (component_destroy e n c))) = []"
  by (auto simp: component_destroy_def Script_destroy_def
           split: component.splits option.splits outcome.splits)

lemma destroy_keeps_ref:
  "component_ref (fst (snd (component_destroy e n c))) = component_ref c"
  by (auto simp: component_destroy_def Script_destroy_def component_ref_def
           split: component.splits option.splits outcome.splits)

lemma addComponent_emissions:
  "emissions (trace (snd (addComponent js e T d s))) =
     emissions (trace s) @
       (case fst (addComponent js e T d s) of
          Inr c \<Rightarrow> if hasComponent e T s then [] else [Emitted COMPONENT_ADDED e T c]
        | Inl err \<Rightarrow> [])"
  by (auto simp: addComponent_def ensure_entity_map_def hasComponent_def Let_def update_conv'
                 construct_no_emission
           split: option.splits sum.splits)

lemma removeComponent_emissions:
  "emissions (trace (snd (removeComponent e T s))) =
     emissions (trace s) @
       (case getComponent e T s of
          Some c \<Rightarrow>
            (case fst (removeComponent e T s) of
               Inr b \<Rightarrow> [Emitted COMPONENT_REMOVED e T (fst (snd (component_destroy e T c)))]
             | Inl err \<Rightarrow> [])
        | None \<Rightarrow> [])"
  using destroy_no_emission [of e T]
  by (auto simp: removeComponent_def getComponent_def has_destroy_def component_destroy_def
                 Script_destroy_def Let_def
           split: option.splits sum.splits prod.splits component.splits outcome.splits)

text \<open>
  Claim C9, the claim as stated: every call of \<^verbatim>\<open>addComponent\<close> emits a notification, also
  when the component is already present. In that case the call returns after the console
  warning, before the \<^verbatim>\<open>emit\<close>: the second call on the Collider of the example adds nothing
  to the emissions.
\<close>

theorem C9_add_on_present_emits_nothing_counterexample:
  "hasComponent ''e1'' ''Collider'' ex_collider
   \<and> emissions (trace (snd (addComponent sample_js ''e1'' ''Collider'' box_data ex_collider)))
       = emissions (trace ex_collider)"
  by (simp add: ex_collider_def box_data_def eval_defs hasComponent_def)

text \<open>
  Claim C9, as amended. A call of \<^verbatim>\<open>addComponent\<close> that builds and stores a new component
  emits exactly one COMPONENT_ADDED carrying the entity id, the type name and the new
  component; a call that finds the component present, or that raises, emits nothing. A
  call of \<^verbatim>\<open>removeComponent\<close> that removes a component emits exactly one COMPONENT_REMOVED
  carrying the entity id, the type name and the removed component (the same object, after
  its \<^verbatim>\<open>destroy\<close>); a call that finds no component, or whose \<^verbatim>\<open>destroy\<close> raises, emits nothing.
\<close>

theorem C9_notifications:
  "emissions (trace (snd (addComponent js e T d s))) =
     emissions (trace s) @
       (case fst (addComponent js e T d s) of
          Inr c \<Rightarrow> if hasComponent e T s then [] else [Emitted COMPONENT_ADDED e T c]
        | Inl err \<Rightarrow> [])
   \<and> emissions (trace (snd (removeComponent e T s))) =
     emissions (trace s) @
       (case getComponent e T s of
          Some c \<Rightarrow>
            (case fst (removeComponent e T s) of
               Inr b \<Rightarrow> [Emitted COMPONENT_REMOVED e T (fst (snd (component_destroy e T c)))]
             | Inl err \<Rightarrow> [])
        | None \<Rightarrow> [])
   \<and> component_ref (fst (snd (component_destroy e T c))) = component_ref c"
  using addComponent_emissions removeComponent_emissions destroy_keeps_ref by blast

theorem C9_notifications_witness:
  "emissions (trace ex_collider) =
     [Emitted COMPONENT_ADDED ''e1'' ''Collider''
        (Native \<lparr>n_ref = 0, n_entity = ''e1'', n_data = Obj empty_data,
                 n_update = Some Returns, n_destroy = Some Returns\<rparr>)]
   \<and> emissions (trace (snd (removeComponent ''e1'' ''Collider'' ex_collider))) =
     [Emitted COMPONENT_ADDED ''e1'' ''Collider''
        (Native \<lparr>n_ref = 0, n_entity = ''e1'', n_data = Obj empty_data,
                 n_update = Some Returns, n_destroy = Some Returns\<rparr>),
      Emitted COMPONENT_REMOVED ''e1'' ''Collider''
        (Native \<lparr>n_ref = 0, n_entity = ''e1'', n_data = Obj empty_data,
                 n_update = Some Returns, n_destroy = Some Returns\<rparr>)]
   \<and> emissions (trace (snd (removeComponent ''e1'' ''Light'' ex_collider))) = emissions (trace ex_collider)"
  using C9_notifications [of sample_js "''e1''" "''Collider''" Undefined "new_system [''e1'']"]
        C9_notifications [of sample_js "''e1''" "''Collider''" Undefined ex_collider]
        C9_notifications [of sample_js "''e1''" "''Light''" Undefined ex_collider]
  by (simp add: ex_collider_def eval_defs hasComponent_def removeComponent_def has_destroy_def
        component_destroy_def COMPONENT_REMOVED_def)

section \<open>The store keeps one component per entity and type\<close>

lemma set_update_subset: "set (AList.update k v al) \<subseteq> insert (k, v) (set al)"
  by (induction al) auto

lemma list_all_update:
  "list_all P al \<Longrightarrow> P (k, v) \<Longrightarrow> list_all P (AList.update k v al)"
  using set_update_subset [of k v al] by (auto simp: list_all_iff)

lemma list_all_delete: "list_all P al \<Longrightarrow> list_all P (AList.delete k al)"
  by (auto simp: list_all_iff AList.delete_eq)

lemma list_all_map_of:
  "list_all P al \<Longrightarrow> map_of al k = Some v \<Longrightarrow> P (k, v)"
  by (auto simp: list_all_iff dest: map_of_SomeD)

lemma wf_entries_update:
  "wf_entries store \<Longrightarrow> distinct (map fst comps) \<Longrightarrow> wf_entries (AList.update e comps store)"
  by (simp add: wf_entries_def distinct_update list_all_update)

lemma wf_entries_delete: "wf_entries store \<Longrightarrow> wf_entries (AList.delete e store)"
  by (simp add: wf_entries_def distinct_delete list_all_delete)

lemma wf_entries_lookup:
  "wf_entries store \<Longrightarrow> map_of store e = Some comps \<Longrightarrow> distinct (map fst comps)"
  using list_all_map_of [of "\<lambda>(e, comps). distinct (map fst comps)" store e comps]
  by (simp add: wf_entries_def)

lemma store_wf_entries: "store_wf s \<longleftrightarrow> wf_entries (entityComponents s)"
  by (simp add: store_wf_def wf_entries_def)

lemma ensure_entity_map_wf: "store_wf s \<Longrightarrow> store_wf (ensure_entity_map e s)"
  by (simp add: ensure_entity_map_def store_wf_entries wf_entries_update)

lemma ensure_entity_map_fields [simp]:
  "componentTypes (ensure_entity_map e s) = componentTypes s"
  "sceneObjects (ensure_entity_map e s) = sceneObjects s"
  "nextRef (ensure_entity_map e s) = nextRef s"
  "trace (ensure_entity_map e s) = trace s"
  "updateableComponents (ensure_entity_map e s) = updateableComponents s"
  by (simp_all add: ensure_entity_map_def)

lemma ensure_entity_map_lookup:
  "map_of (entityComponents (ensure_entity_map e s)) e =
     (case map_of (entityComponents s) e of None \<Rightarrow> Some [] | Some comps \<Rightarrow> Some comps)"
  by (simp add: ensure_entity_map_def update_conv' split: option.splits)

lemma ensure_entity_map_idle:
  "map_of (entityComponents s) e = Some comps \<Longrightarrow> ensure_entity_map e s = s"
  by (simp add: ensure_entity_map_def)

lemma addComponent_wf:
  assumes "store_wf s"
  shows "store_wf (snd (addComponent js e T d s))"
proof (cases "map_of (componentTypes s) T")
  case None
  with assms show ?thesis by (simp add: addComponent_def)
next
  case (Some cls)
  define s1 where "s1 = ensure_entity_map e s"
  have "\<exists>m. map_of (entityComponents s1) e = Some m"
    by (cases "map_of (entityComponents s) e") (simp_all add: s1_def ensure_entity_map_lookup)
  then obtain m where m: "map_of (entityComponents s1) e = Some m" ..
  have w1: "wf_entries (entityComponents s1)"
    using assms ensure_entity_map_wf [of s e] by (simp add: s1_def store_wf_entries)
  have dc: "distinct (map fst m)"
    using wf_entries_lookup [OF w1 m] .
  have w2: "wf_entries (AList.update e (AList.update T c m) (entityComponents s1))" for c
    using w1 dc by (simp add: wf_entries_update distinct_update)
  show ?thesis
  proof (cases "map_of m T")
    case (Some c)
    with \<open>map_of (componentTypes s) T = Some cls\<close> m w1 show ?thesis
      by (simp add: addComponent_def Let_def store_wf_entries s1_def [symmetric])
  next
    case None
    with \<open>map_of (componentTypes s) T = Some cls\<close> m w1 w2 show ?thesis
      by (cases "construct js (sceneObjects s1) cls (nextRef s1) e (default_data d)")
         (auto simp: addComponent_def Let_def store_wf_entries s1_def [symmetric])
  qed
qed

lemma removeComponent_wf:
  assumes "store_wf s"
  shows "store_wf (snd (removeComponent e T s))"
proof (cases "map_of (entityComponents s) e")
  case None
  with assms show ?thesis by (simp add: removeComponent_def store_wf_entries)
next
  case (Some comps)
  have w: "wf_entries (entityComponents s)" using assms by (simp add: store_wf_entries)
  have dc: "distinct (map fst (AList.delete T comps))"
    using wf_entries_lookup [OF w Some] by (simp add: distinct_delete)
  show ?thesis
  proof (cases "map_of comps T")
    case None
    with Some w show ?thesis by (simp add: removeComponent_def store_wf_entries)
  next
    case c: (Some c)
    obtain r c' evs where r:
      "(if has_destroy c then component_destroy e T c else (None, c, [])) = (r, c', evs)"
      by (metis prod_cases3)
    show ?thesis
      using Some c w dc r
      by (cases r)
         (simp_all add: removeComponent_def Let_def store_wf_entries wf_entries_update
                        wf_entries_delete)
  qed
qed

lemma store_wf_comps:
  "store_wf s \<Longrightarrow> map_of (entityComponents s) e = Some comps \<Longrightarrow> distinct (map fst comps)"
  using list_all_map_of [of "\<lambda>(e, comps). distinct (map fst comps)" "entityComponents s" e comps]
  by (simp add: store_wf_def)

lemma new_system_wf: "store_wf (new_system objs)"
  by (simp add: new_system_def registerComponent_def store_wf_def)

lemma remove_each_wf: "store_wf s \<Longrightarrow> store_wf (snd (remove_each e names s))"
proof (induction names arbitrary: s)
  case Nil
  then show ?case by simp
next
  case (Cons n names)
  have w: "store_wf (snd (removeComponent e n s))" using Cons.prems by (rule removeComponent_wf)
  show ?case
  proof (cases "removeComponent e n s")
    case (Pair r s')
    with w have "store_wf s'" by simp
    with Pair Cons.IH [of s'] show ?thesis by (cases r) simp_all
  qed
qed

lemma removeAllComponents_wf: "store_wf s \<Longrightarrow> store_wf (snd (removeAllComponents e s))"
  by (simp add: removeAllComponents_def remove_each_wf split: option.splits)

lemma store_step_wf: "store_wf s \<Longrightarrow> store_wf (store_step js s call)"
  by (cases call) (simp_all add: addComponent_wf removeComponent_wf removeAllComponents_wf)

lemma store_run_wf: "store_wf s \<Longrightarrow> store_wf (store_run js calls s)"
  unfolding store_run_def
  by (induction calls arbitrary: s) (simp_all add: store_step_wf)

lemma distinct_keys_filter:
  "distinct (map fst al) \<Longrightarrow> length (filter (\<lambda>p. fst p = k) al) \<le> 1"
proof (induction al)
  case Nil
  then show ?case by simp
next
  case (Cons p al)
  show ?case
  proof (cases "fst p = k")
    case True
    with Cons.prems have "k \<notin> fst ` set al" by auto
    then have "filter (\<lambda>p. fst p = k) al = []" by (auto simp: filter_empty_conv)
    with True show ?thesis by simp
  next
    case False
    with Cons show ?thesis by simp
  qed
qed

lemma addComponent_again:
  assumes "addComponent js e T d1 s = (Inr c, s1)"
  shows "addComponent js e T d2 s1 =
           (Inr c, s1\<lparr>trace := trace s1 @ [ConsoleWarn (AlreadyHas e T)]\<rparr>)"
proof -
  from assms obtain cls where cls: "map_of (componentTypes s) T = Some cls"
    by (auto simp: addComponent_def split: option.splits)
  have "\<exists>m. map_of (entityComponents (ensure_entity_map e s)) e = Some m"
    by (cases "map_of (entityComponents s) e") (simp_all add: ensure_entity_map_lookup)
  then obtain m where m: "map_of (entityComponents (ensure_entity_map e s)) e = Some m" ..
  have "componentTypes s1 = componentTypes s
        \<and> (\<exists>comps. map_of (entityComponents s1) e = Some comps \<and> map_of comps T = Some c)"
  proof (cases "map_of m T")
    case (Some c0)
    with assms cls m show ?thesis by (auto simp: addComponent_def Let_def)
  next
    case None
    with assms cls m show ?thesis
      by (cases "construct js (sceneObjects s) cls (nextRef s) e (default_data d1)")
         (auto simp: addComponent_def Let_def update_conv')
  qed
  then obtain comps where "componentTypes s1 = componentTypes s"
    "map_of (entityComponents s1) e = Some comps" "map_of comps T = Some c"
    by blast
  with cls show ?thesis
    by (simp add: addComponent_def Let_def ensure_entity_map_idle)
qed

lemma addComponent_built_from:
  assumes "addComponent js e T d1 s = (Inr c, s1)" and "\<not> hasComponent e T s"
  shows "\<exists>cls evs. map_of (componentTypes s) T = Some cls
           \<and> construct js (sceneObjects s) cls (nextRef s) e (default_data d1) = Inr (c, evs)"
proof -
  from assms obtain cls where cls: "map_of (componentTypes s) T = Some cls"
    by (auto simp: addComponent_def split: option.splits)
  have "\<exists>m. map_of (entityComponents (ensure_entity_map e s)) e = Some m \<and> map_of m T = None"
    using assms(2)
    by (cases "map_of (entityComponents s) e")
       (simp_all add: ensure_entity_map_lookup hasComponent_def)
  then obtain m where m: "map_of (entityComponents (ensure_entity_map e s)) e = Some m"
    "map_of m T = None" by blast
  show ?thesis
    using assms(1) cls m
    by (cases "construct js (sceneObjects s) cls (nextRef s) e (default_data d1)")
       (auto simp: addComponent_def Let_def)
qed

lemma ex_calls_store:
  "map (\<lambda>(e, comps). (e, map fst comps))
       (entityComponents (store_run sample_js ex_calls (new_system [''e1'', ''e2''])))
     = [(''e1'', [''Script'', ''Collider''])]"
  by (simp add: ex_calls_def store_run_def eval_defs box_data_def removeComponent_def
        removeAllComponents_def has_destroy_def component_destroy_def Script_destroy_def)

text \<open>
  Claim C8, the claim as stated: for all data values \<open>d1\<close> and \<open>d2\<close> the two calls do not
  throw and the second returns the instance of the first, its data reflecting \<open>d1\<close>. With
  \<open>d1 = null\<close> the constructor of Collider throws in the first call; the second call then
  finds no component, and constructs and returns one from \<open>d2\<close>.
\<close>

theorem C8_first_add_throws_counterexample:
  "fst (addComponent sample_js ''e1'' ''Collider'' Null (new_system [''e1'']))
     = Inl (ConstructorError ''e1'')
   \<and> fst (addComponent sample_js ''e1'' ''Collider'' box_data
        (snd (addComponent sample_js ''e1'' ''Collider'' Null (new_system [''e1'']))))
     = Inr (Native \<lparr>n_ref = 1, n_entity = ''e1'', n_data = box_data,
                  n_update = Some Returns, n_destroy = Some Returns\<rparr>)"
  by (simp add: eval_defs box_data_def)

text \<open>
  Claim C8, as amended: the same under the condition that the first call returns. When
  \<^verbatim>\<open>addComponent(E, T, d1)\<close> has returned the component \<open>c\<close>, a second call
  \<^verbatim>\<open>addComponent(E, T, d2)\<close> raises nothing and returns \<open>c\<close> again; it changes nothing but
  the console (no construction, no replacement), and when \<open>E\<close> had no \<open>T\<close> before the first
  call, \<open>c\<close> is what the constructor of \<open>T\<close> built from \<open>d1\<close>. After any sequence of store
  calls on a new system, an entity has one component map, and that map has at most one
  entry for a type name.
\<close>

theorem C8_add_is_idempotent:
  "(addComponent js e T d1 s = (Inr c, s1) \<longrightarrow>
      addComponent js e T d2 s1 =
        (Inr c, s1\<lparr>trace := trace s1 @ [ConsoleWarn (AlreadyHas e T)]\<rparr>)
      \<and> (\<not> hasComponent e T s \<longrightarrow>
           (\<exists>cls evs. map_of (componentTypes s) T = Some cls
              \<and> construct js (sceneObjects s) cls (nextRef s) e (default_data d1) = Inr (c, evs))))
   \<and> (\<forall>comps. map_of (entityComponents (store_run js calls (new_system objs))) E = Some comps
        \<longrightarrow> length (filter (\<lambda>p. fst p = T) comps) \<le> 1)
   \<and> length (filter (\<lambda>p. fst p = E) (entityComponents (store_run js calls (new_system objs)))) \<le> 1"
proof (intro conjI impI allI)
  assume "addComponent js e T d1 s = (Inr c, s1)"
  then show "addComponent js e T d2 s1 =
        (Inr c, s1\<lparr>trace := trace s1 @ [ConsoleWarn (AlreadyHas e T)]\<rparr>)"
    by (rule addComponent_again)
next
  assume "addComponent js e T d1 s = (Inr c, s1)" and "\<not> hasComponent e T s"
  then show "\<exists>cls evs. map_of (componentTypes s) T = Some cls
              \<and> construct js (sceneObjects s) cls (nextRef s) e (default_data d1) = Inr (c, evs)"
    by (rule addComponent_built_from)
next
  fix comps
  assume "map_of (entityComponents (store_run js calls (new_system objs))) E = Some comps"
  with store_run_wf [OF new_system_wf] have "distinct (map fst comps)"
    by (rule store_wf_comps)
  then show "length (filter (\<lambda>p. fst p = T) comps) \<le> 1"
    by (rule distinct_keys_filter)
next
  have "store_wf (store_run js calls (new_system objs))"
    by (rule store_run_wf [OF new_system_wf])
  then have "distinct (map fst (entityComponents (store_run js calls (new_system objs))))"
    by (simp add: store_wf_def)
  then show "length (filter (\<lambda>p. fst p = E) (entityComponents (store_run js calls (new_system objs)))) \<le> 1"
    by (rule distinct_keys_filter)
qed

theorem C8_add_is_idempotent_witness:
  "addComponent sample_js ''e1'' ''Collider'' Undefined (new_system [''e1'']) =
     (Inr (Native \<lparr>n_ref = 0, n_entity = ''e1'', n_data = Obj empty_data,
                   n_update = Some Returns, n_destroy = Some Returns\<rparr>), ex_collider)
   \<and> fst (addComponent sample_js ''e1'' ''Collider'' box_data ex_collider) =
     Inr (Native \<lparr>n_ref = 0, n_entity = ''e1'', n_data = Obj empty_data,
                  n_update = Some Returns, n_destroy = Some Returns\<rparr>)
   \<and> getComponents ''e1'' (snd (addComponent sample_js ''e1'' ''Collider'' box_data ex_collider)) =
     [Native \<lparr>n_ref = 0, n_entity = ''e1'', n_data = Obj empty_data,
              n_update = Some Returns, n_destroy = Some Returns\<rparr>]
   \<and> nextRef (snd (addComponent sample_js ''e1'' ''Collider'' box_data ex_collider)) = nextRef ex_collider
   \<and> map (\<lambda>(e, comps). (e, map fst comps))
         (entityComponents (store_run sample_js ex_calls (new_system [''e1'', ''e2''])))
       = [(''e1'', [''Script'', ''Collider''])]"
  using C8_add_is_idempotent [of sample_js "''e1''" "''Collider''" Undefined "new_system [''e1'']"
          "Native \<lparr>n_ref = 0, n_entity = ''e1'', n_data = Obj empty_data,
                   n_update = Some Returns, n_destroy = Some Returns\<rparr>"
          ex_collider box_data ex_calls "[''e1'', ''e2'']" "''e1''"]
        ex_calls_store
  by (simp add: ex_collider_def eval_defs getComponents_def hasComponent_def)

text \<open>
  Claim C10: no entity is kept with an empty component map. \<^verbatim>\<open>addComponent\<close> creates the
  map of a new entity before it calls the constructor, and nothing removes the map again
  when the constructor throws: after \<^verbatim>\<open>addComponent('e1', 'Script', null)\<close> on a new system
  the store maps \<^verbatim>\<open>e1\<close> to an empty map.
\<close>

theorem C10_failed_constructor_leaves_empty_map:
  "fst (addComponent sample_js ''e1'' ''Script'' Null (new_system [''e1''])) = Inl (ConstructorError ''e1'')
   \<and> entityComponents (snd (addComponent sample_js ''e1'' ''Script'' Null (new_system [''e1'']))) = [(''e1'', [])]"
  by (simp add: eval_defs)

section \<open>The scheduler tick\<close>

lemma component_update_silent [simp]:
  "update_calls (snd (snd (component_update now dt s e name c))) = []"
proof (cases c)
  case (Script sc)
  obtain r sc' evs where u: "Script_update now dt s sc = (r, sc', evs)"
    by (cases "Script_update now dt s sc")
  with Script_update_silent [of now dt s sc] Script show ?thesis
    by (simp add: component_update_def)
next
  case (Native n)
  then show ?thesis
    by (simp add: component_update_def split: option.splits outcome.splits)
qed

lemma component_update_raises:
  "fst (component_update now dt s e name c) = None \<longleftrightarrow> \<not> update_raises s c"
proof (cases c)
  case (Script sc)
  obtain r sc' evs where u: "Script_update now dt s sc = (r, sc', evs)"
    by (cases "Script_update now dt s sc")
  with Script_update_raises [of now dt s sc] Script show ?thesis
    by (simp add: component_update_def update_raises_def)
next
  case (Native n)
  then show ?thesis
    by (auto simp: component_update_def update_raises_def split: option.splits outcome.splits)
qed

lemma forEach_component_calls:
  "fst (forEach_component sel now dt s e comps) = None \<Longrightarrow>
   update_calls (snd (snd (forEach_component sel now dt s e comps))) =
     map (\<lambda>name. (e, name, dt)) (due_components sel comps)"
proof (induction comps)
  case Nil
  then show ?case by (simp add: due_components_def)
next
  case (Cons p comps)
  obtain name c where p: "p = (name, c)" by (cases p)
  obtain r c' evs where u: "component_update now dt s e name c = (r, c', evs)"
    by (cases "component_update now dt s e name c")
  obtain r2 cs2 evs2 where f: "forEach_component sel now dt s e comps = (r2, cs2, evs2)"
    by (cases "forEach_component sel now dt s e comps")
  have silent: "update_calls evs = []"
    using component_update_silent [of now dt s e name c] u by simp
  show ?case
  proof (cases "sel name \<and> has_update c")
    case True
    with Cons.prems p u f have r: "r = None" and r2: "r2 = None"
      by (cases r; simp)+
    with Cons.IH f have "update_calls evs2 = map (\<lambda>name. (e, name, dt)) (due_components sel comps)"
      by simp
    with True p u f r silent show ?thesis by (simp add: due_components_def)
  next
    case False
    with Cons.prems p f have "r2 = None" by auto
    with Cons.IH f have "update_calls evs2 = map (\<lambda>name. (e, name, dt)) (due_components sel comps)"
      by simp
    with False p f show ?thesis by (auto simp: due_components_def)
  qed
qed

lemma forEach_entity_calls:
  "fst (forEach_entity sel now dt s store) = None \<Longrightarrow>
   update_calls (snd (snd (forEach_entity sel now dt s store))) =
     concat (map (\<lambda>(e, comps). map (\<lambda>name. (e, name, dt)) (due_components sel comps)) store)"
proof (induction store)
  case Nil
  then show ?case by simp
next
  case (Cons p store)
  obtain e comps where p: "p = (e, comps)" by (cases p)
  obtain r cs evs where c: "forEach_component sel now dt s e comps = (r, cs, evs)"
    by (cases "forEach_component sel now dt s e comps")
  obtain r2 st2 evs2 where f: "forEach_entity sel now dt s store = (r2, st2, evs2)"
    by (cases "forEach_entity sel now dt s store")
  from Cons.prems p c f have r: "r = None" and r2: "r2 = None"
    by (cases r; simp)+
  have "update_calls evs = map (\<lambda>name. (e, name, dt)) (due_components sel comps)"
    using forEach_component_calls [of sel now dt s e comps] c r by simp
  moreover have "update_calls evs2 =
      concat (map (\<lambda>(e, comps). map (\<lambda>name. (e, name, dt)) (due_components sel comps)) store)"
    using Cons.IH f r2 by simp
  ultimately show ?case using p c f r by simp
qed

lemma run_updates_calls:
  "fst (run_updates sel now dt s) = Inr () \<Longrightarrow>
   update_calls (trace (snd (run_updates sel now dt s))) =
     update_calls (trace s) @
     concat (map (\<lambda>(e, comps). map (\<lambda>name. (e, name, dt)) (due_components sel comps))
                 (entityComponents s))"
proof -
  assume a: "fst (run_updates sel now dt s) = Inr ()"
  obtain r st evs where f: "forEach_entity sel now dt s (entityComponents s) = (r, st, evs)"
    by (cases "forEach_entity sel now dt s (entityComponents s)")
  from a f have "r = None" by (cases r) (simp_all add: run_updates_def)
  with forEach_entity_calls [of sel now dt s "entityComponents s"] f
  show ?thesis by (simp add: run_updates_def)
qed

lemma updateComponents_calls:
  assumes "fst (updateComponents now dt s) = Inr ()"
  shows "update_calls (trace (snd (updateComponents now dt s))) =
           update_calls (trace s) @ due_updates (editorMode s = ''play'') dt (entityComponents s)"
proof (cases "editorMode s = ''play''")
  case True
  with assms run_updates_calls [of "\<lambda>name. True" now dt s] show ?thesis
    by (simp add: updateComponents_def due_updates_def)
next
  case False
  with assms run_updates_calls [of "\<lambda>name. name \<noteq> ''Script''" now dt s] show ?thesis
    by (simp add: updateComponents_def due_updates_def)
qed

text \<open>The tick in general: the calls made end with the first one that lets an error out.\<close>

lemma up_to_first_simps [simp]:
  "up_to_first P [] = []"
  "up_to_first P (x # xs) = (if P x then [x] else x # up_to_first P xs)"
  by (simp_all add: up_to_first_def)

lemma up_to_first_append:
  "up_to_first P (xs @ ys) =
     (if \<exists>x\<in>set xs. P x then up_to_first P xs else xs @ up_to_first P ys)"
  by (induction xs) simp_all

lemma up_to_first_map: "up_to_first P (map f xs) = map f (up_to_first (\<lambda>x. P (f x)) xs)"
  by (induction xs) simp_all

lemma up_to_first_none: "\<forall>x\<in>set xs. \<not> P x \<Longrightarrow> up_to_first P xs = xs"
  by (induction xs) simp_all

lemma forEach_component_trace:
  "update_calls (snd (snd (forEach_component sel now dt s e comps))) =
     map (\<lambda>p. (e, fst p, dt))
       (up_to_first (\<lambda>p. update_raises s (snd p))
          (filter (\<lambda>p. sel (fst p) \<and> has_update (snd p)) comps))
   \<and> (fst (forEach_component sel now dt s e comps) = None \<longleftrightarrow>
        (\<forall>p \<in> set (filter (\<lambda>p. sel (fst p) \<and> has_update (snd p)) comps).
           \<not> update_raises s (snd p)))"
proof (induction comps)
  case Nil
  show ?case by simp
next
  case (Cons p comps)
  obtain name c where p: "p = (name, c)" by (cases p)
  obtain r c' evs where u: "component_update now dt s e name c = (r, c', evs)"
    by (cases "component_update now dt s e name c")
  obtain r2 cs2 evs2 where f: "forEach_component sel now dt s e comps = (r2, cs2, evs2)"
    by (cases "forEach_component sel now dt s e comps")
  have silent: "update_calls evs = []"
    using component_update_silent [of now dt s e name c] u by simp
  have raises: "r = None \<longleftrightarrow> \<not> update_raises s c"
    using component_update_raises [of now dt s e name c] u by simp
  show ?case
  proof (cases "sel name \<and> has_update c")
    case due: True
    show ?thesis
    proof (cases r)
      case None
      with raises have "\<not> update_raises s c" by simp
      with Cons.IH due p u f None silent show ?thesis by simp
    next
      case (Some err)
      with raises have "update_raises s c" by simp
      with due p u f Some silent show ?thesis by simp
    qed
  next
    case False
    with Cons.IH p f show ?thesis by auto
  qed
qed

lemma up_to_first_append_quiet:
  "\<forall>x\<in>set xs. \<not> P x \<Longrightarrow> up_to_first P (xs @ ys) = xs @ up_to_first P ys"
  by (simp add: up_to_first_append)

lemma up_to_first_append_loud:
  "\<exists>x\<in>set xs. P x \<Longrightarrow> up_to_first P (xs @ ys) = up_to_first P xs"
  by (simp add: up_to_first_append)

lemma forEach_entity_trace:
  "update_calls (snd (snd (forEach_entity sel now dt s store))) =
     map (\<lambda>(e, name, c). (e, name, dt))
       (up_to_first (\<lambda>(e, name, c). update_raises s c)
          (concat (map (\<lambda>(e, comps).
                          map (\<lambda>(name, c). (e, name, c))
                            (filter (\<lambda>(name, c). sel name \<and> has_update c) comps))
                       store)))
   \<and> (fst (forEach_entity sel now dt s store) = None \<longleftrightarrow>
        (\<forall>(e, name, c) \<in> set (concat (map (\<lambda>(e, comps).
                          map (\<lambda>(name, c). (e, name, c))
                            (filter (\<lambda>(name, c). sel name \<and> has_update c) comps))
                       store)).
           \<not> update_raises s c))"
proof (induction store)
  case Nil
  show ?case by simp
next
  case (Cons p store)
  obtain e comps where p: "p = (e, comps)" by (cases p)
  obtain r cs evs where c: "forEach_component sel now dt s e comps = (r, cs, evs)"
    by (cases "forEach_component sel now dt s e comps")
  obtain r2 st2 evs2 where f: "forEach_entity sel now dt s store = (r2, st2, evs2)"
    by (cases "forEach_entity sel now dt s store")
  define P :: "entity_id \<times> string \<times> component \<Rightarrow> bool"
    where "P = (\<lambda>(e, name, c). update_raises s c)"
  define g :: "entity_id \<times> string \<times> component \<Rightarrow> entity_id \<times> string \<times> real"
    where "g = (\<lambda>(e, name, c). (e, name, dt))"
  define due where "due = filter (\<lambda>p. sel (fst p) \<and> has_update (snd p)) comps"
  define T where "T = map (Pair e) due"
  define rest where "rest = concat (map (\<lambda>(e, comps).
                          map (\<lambda>(name, c). (e, name, c))
                            (filter (\<lambda>(name, c). sel name \<and> has_update c) comps))
                       store)"
  have due: "filter (\<lambda>(name, c). sel name \<and> has_update c) comps = due"
    unfolding due_def by (rule filter_cong) auto
  have list: "concat (map (\<lambda>(e, comps).
                          map (\<lambda>(name, c). (e, name, c))
                            (filter (\<lambda>(name, c). sel name \<and> has_update c) comps))
                       (p # store)) = T @ rest"
    by (simp add: p due T_def rest_def)
  from forEach_component_trace [of sel now dt s e comps] c
  have evs: "update_calls evs =
      map (\<lambda>p. (e, fst p, dt)) (up_to_first (\<lambda>p. update_raises s (snd p)) due)"
    and r: "r = None \<longleftrightarrow> (\<forall>p \<in> set due. \<not> update_raises s (snd p))"
    by (simp_all add: due_def)
  from Cons.IH f
  have evs2: "update_calls evs2 = map g (up_to_first P rest)"
    and r2: "r2 = None \<longleftrightarrow> (\<forall>x \<in> set rest. \<not> P x)"
    by (simp_all add: P_def g_def rest_def case_prod_unfold)
  have gT: "map g (up_to_first P T)
               = map (\<lambda>p. (e, fst p, dt)) (up_to_first (\<lambda>p. update_raises s (snd p)) due)"
    by (simp add: T_def P_def g_def up_to_first_map comp_def case_prod_unfold)
  have PT: "(\<forall>x \<in> set T. \<not> P x) \<longleftrightarrow> (\<forall>p \<in> set due. \<not> update_raises s (snd p))"
    by (simp add: T_def P_def case_prod_unfold)
  have goal: "update_calls (snd (snd (forEach_entity sel now dt s (p # store))))
                = map g (up_to_first P (T @ rest))
              \<and> (fst (forEach_entity sel now dt s (p # store)) = None \<longleftrightarrow>
                   (\<forall>x \<in> set (T @ rest). \<not> P x))"
  proof (cases r)
    case None
    with r PT have quiet: "\<forall>x \<in> set T. \<not> P x" by simp
    then have all: "up_to_first P T = T" by (rule up_to_first_none)
    have "update_calls (snd (snd (forEach_entity sel now dt s (p # store))))
            = update_calls evs @ update_calls evs2"
      using p c f None by simp
    also have "\<dots> = map g T @ map g (up_to_first P rest)"
      using evs evs2 gT all by simp
    also have "\<dots> = map g (up_to_first P (T @ rest))"
      by (simp only: up_to_first_append_quiet [OF quiet] map_append)
    finally have a: "update_calls (snd (snd (forEach_entity sel now dt s (p # store))))
            = map g (up_to_first P (T @ rest))" .
    have "fst (forEach_entity sel now dt s (p # store)) = r2"
      using p c f None by simp
    with r2 quiet have b: "fst (forEach_entity sel now dt s (p # store)) = None \<longleftrightarrow>
               (\<forall>x \<in> set (T @ rest). \<not> P x)"
      by auto
    from a b show ?thesis by simp
  next
    case (Some err)
    with r PT have loud: "\<exists>x \<in> set T. P x" by blast
    have "update_calls (snd (snd (forEach_entity sel now dt s (p # store)))) = update_calls evs"
      using p c Some by simp
    also have "\<dots> = map g (up_to_first P T)"
      using evs gT by simp
    also have "\<dots> = map g (up_to_first P (T @ rest))"
      by (simp only: up_to_first_append_loud [OF loud])
    finally have a: "update_calls (snd (snd (forEach_entity sel now dt s (p # store))))
            = map g (up_to_first P (T @ rest))" .
    have "fst (forEach_entity sel now dt s (p # store)) = Some err"
      using p c Some by simp
    with loud have b: "fst (forEach_entity sel now dt s (p # store)) = None \<longleftrightarrow>
               (\<forall>x \<in> set (T @ rest). \<not> P x)"
      by auto
    from a b show ?thesis by simp
  qed
  have ball: "(\<forall>(e, name, c) \<in> set (T @ rest). \<not> update_raises s c) \<longleftrightarrow> (\<forall>x \<in> set (T @ rest). \<not> P x)"
    by (simp add: P_def case_prod_unfold)
  from goal show ?case
    unfolding list ball by (simp only: P_def g_def)
qed

lemma run_updates_trace:
  "update_calls (trace (snd (run_updates sel now dt s))) =
     update_calls (trace s) @
     map (\<lambda>(e, name, c). (e, name, dt))
       (up_to_first (\<lambda>(e, name, c). update_raises s c)
          (concat (map (\<lambda>(e, comps).
                          map (\<lambda>(name, c). (e, name, c))
                            (filter (\<lambda>(name, c). sel name \<and> has_update c) comps))
                       (entityComponents s))))
   \<and> (fst (run_updates sel now dt s) = Inr () \<longleftrightarrow>
        (\<forall>(e, name, c) \<in> set (concat (map (\<lambda>(e, comps).
                          map (\<lambda>(name, c). (e, name, c))
                            (filter (\<lambda>(name, c). sel name \<and> has_update c) comps))
                       (entityComponents s))).
           \<not> update_raises s c))"
proof -
  obtain r st evs where f: "forEach_entity sel now dt s (entityComponents s) = (r, st, evs)"
    by (cases "forEach_entity sel now dt s (entityComponents s)")
  with forEach_entity_trace [of sel now dt s "entityComponents s"]
  show ?thesis by (cases r) (simp_all add: run_updates_def)
qed

lemma updateComponents_trace:
  "update_calls (trace (snd (updateComponents now dt s))) =
     update_calls (trace s) @
     map (\<lambda>(e, name, c). (e, name, dt))
       (up_to_first (\<lambda>(e, name, c). update_raises s c)
          (due_list (editorMode s = ''play'') (entityComponents s)))"
  "fst (updateComponents now dt s) = Inr () \<longleftrightarrow>
     (\<forall>(e, name, c) \<in> set (due_list (editorMode s = ''play'') (entityComponents s)).
        \<not> update_raises s c)"
proof -
  have "update_calls (trace (snd (updateComponents now dt s))) =
     update_calls (trace s) @
     map (\<lambda>(e, name, c). (e, name, dt))
       (up_to_first (\<lambda>(e, name, c). update_raises s c)
          (due_list (editorMode s = ''play'') (entityComponents s)))
   \<and> (fst (updateComponents now dt s) = Inr () \<longleftrightarrow>
     (\<forall>(e, name, c) \<in> set (due_list (editorMode s = ''play'') (entityComponents s)).
        \<not> update_raises s c))"
  proof (cases "editorMode s = ''play''")
    case True
    with run_updates_trace [of "\<lambda>name. True" now dt s] show ?thesis
      by (simp add: updateComponents_def due_list_def)
  next
    case False
    with run_updates_trace [of "\<lambda>name. name \<noteq> ''Script''" now dt s] show ?thesis
      by (simp add: updateComponents_def due_list_def)
  qed
  then show "update_calls (trace (snd (updateComponents now dt s))) =
     update_calls (trace s) @
     map (\<lambda>(e, name, c). (e, name, dt))
       (up_to_first (\<lambda>(e, name, c). update_raises s c)
          (due_list (editorMode s = ''play'') (entityComponents s)))"
    and "fst (updateComponents now dt s) = Inr () \<longleftrightarrow>
     (\<forall>(e, name, c) \<in> set (due_list (editorMode s = ''play'') (entityComponents s)).
        \<not> update_raises s c)"
    by simp_all
qed

lemma ex_boom_fields:
  "entityComponents ex_boom =
     [(''e1'', [(''Boom'', Native \<lparr>n_ref = 0, n_entity = ''e1'', n_data = Obj empty_data,
                                   n_update = Some Throws, n_destroy = None\<rparr>),
               (''Collider'', Native \<lparr>n_ref = 1, n_entity = ''e1'', n_data = Obj empty_data,
                                       n_update = Some Returns, n_destroy = Some Returns\<rparr>)]),
      (''e2'', [(''Collider'', Native \<lparr>n_ref = 2, n_entity = ''e2'', n_data = Obj empty_data,
                                       n_update = Some Returns, n_destroy = Some Returns\<rparr>)])]"
  "update_calls (trace ex_boom) = []"
  by (simp_all add: ex_boom_def Boom_def eval_defs)

lemma ex_scene_fields:
  "entityComponents ex_scene =
     [(''e1'', [(''Script'', Script \<lparr>s_ref = 0, entity = ''e1'', scriptName = [],
                   scriptCode = ''function update(){throw 1}'',
                   scriptInstance = Some \<lparr>ctx = Some \<lparr>gameObject = Some ''e1'', time_deltaTime = 0,
                                                  time_time = 0, time_writes = Returns,
                                                  time_getTime = Returns, object_writes = Returns\<rparr>,
                                           inst_start = None, inst_update = Some Throws,
                                           inst_onDestroy = None\<rparr>,
                   enabled = True, variables = []\<rparr>),
               (''Collider'', Native \<lparr>n_ref = 1, n_entity = ''e1'', n_data = Obj empty_data,
                                       n_update = Some Returns, n_destroy = Some Returns\<rparr>)]),
      (''e2'', [(''Light'', Native \<lparr>n_ref = 2, n_entity = ''e2'', n_data = Obj empty_data,
                                    n_update = Some Returns, n_destroy = Some Returns\<rparr>)])]"
  "update_calls (trace ex_scene) = []"
  "sceneObjects ex_scene = [''e1'', ''e2'']"
  "scriptStartTime ex_scene = 1000"
  "totalPausedTime ex_scene = 0"
  "count_list (trace ex_scene) (ConsoleError (UpdateFailed ''e1'')) = 0"
  by (simp_all add: ex_scene_def eval_defs)

lemma ex_rebound_playing_fields:
  "map (\<lambda>(e, comps). (e, map fst comps)) (entityComponents ex_rebound_playing) =
     [(''e1'', [''Script'', ''Collider'']), (''e2'', [''Script''])]"
  "map (\<lambda>(e, name, c). (e, name, update_raises ex_rebound_playing c))
       (due_list True (entityComponents ex_rebound_playing)) =
     [(''e1'', ''Script'', True), (''e1'', ''Collider'', False), (''e2'', ''Script'', False)]"
  "update_calls (trace ex_rebound_playing) = []"
  "editorMode ex_rebound_playing = ''play''"
  by (simp_all add: ex_rebound_playing_def eval_defs due_list_def update_raises_def
        script_update_raises_def)

lemmas tick_defs =
  updateComponents_def run_updates_def component_update_def Script_update_def has_update_def
  call_update_hook_def getTime_def due_updates_def due_components_def

text \<open>
  Claim C4, the claim as stated: on every tick every component with an \<^verbatim>\<open>update\<close> function
  is called (but scripts outside play mode). The loops of \<^verbatim>\<open>updateComponents\<close> have no
  \<^verbatim>\<open>try\<close>: in play mode the Collider of \<^verbatim>\<open>e1\<close> gets no call in a tick in which the \<^verbatim>\<open>update\<close>
  of the component before it throws.
\<close>

theorem C4_raising_update_ends_tick_counterexample:
  "getComponent ''e1'' ''Collider'' (ex_boom\<lparr>editorMode := ''play''\<rparr>) =
     Some (Native \<lparr>n_ref = 1, n_entity = ''e1'', n_data = Obj empty_data,
                   n_update = Some Returns, n_destroy = Some Returns\<rparr>)
   \<and> update_calls (trace (snd (updateComponents 2000 0.016 (ex_boom\<lparr>editorMode := ''play''\<rparr>)))) =
       [(''e1'', ''Boom'', 0.016)]"
  by (simp add: ex_boom_fields tick_defs getComponent_def)

text \<open>
  Claim C4, as amended. On every tick that no error leaves, the calls
  \<^verbatim>\<open>update(deltaTime)\<close> made are exactly these, once each and in the order of the maps: in
  play mode every component that has an \<^verbatim>\<open>update\<close> function, Script included; in pause
  mode and in every other mode every such component whose name is not \<^verbatim>\<open>'Script'\<close>.
\<close>

theorem C4_update_dispatch:
  assumes "fst (updateComponents now dt s) = Inr ()"
  shows "update_calls (trace (snd (updateComponents now dt s))) =
           update_calls (trace s) @ due_updates (editorMode s = ''play'') dt (entityComponents s)"
  using assms by (rule updateComponents_calls)

theorem C4_update_dispatch_witness:
  "fst (updateComponents 2000 0.016 (ex_scene\<lparr>editorMode := ''play''\<rparr>)) = Inr ()
   \<and> update_calls (trace (snd (updateComponents 2000 0.016 (ex_scene\<lparr>editorMode := ''play''\<rparr>)))) =
       [(''e1'', ''Script'', 0.016), (''e1'', ''Collider'', 0.016), (''e2'', ''Light'', 0.016)]
   \<and> fst (updateComponents 2000 0.016 (ex_scene\<lparr>editorMode := ''pause''\<rparr>)) = Inr ()
   \<and> update_calls (trace (snd (updateComponents 2000 0.016 (ex_scene\<lparr>editorMode := ''pause''\<rparr>)))) =
       [(''e1'', ''Collider'', 0.016), (''e2'', ''Light'', 0.016)]
   \<and> fst (updateComponents 2000 0.016 (ex_scene\<lparr>editorMode := ''stop''\<rparr>)) = Inr ()
   \<and> update_calls (trace (snd (updateComponents 2000 0.016 (ex_scene\<lparr>editorMode := ''stop''\<rparr>)))) =
       [(''e1'', ''Collider'', 0.016), (''e2'', ''Light'', 0.016)]"
proof -
  have a: "fst (updateComponents 2000 0.016 (ex_scene\<lparr>editorMode := ''play''\<rparr>)) = Inr ()"
    by (simp add: ex_scene_fields tick_defs Let_def)
  have b: "fst (updateComponents 2000 0.016 (ex_scene\<lparr>editorMode := ''pause''\<rparr>)) = Inr ()"
    by (simp add: ex_scene_fields tick_defs Let_def)
  have c: "fst (updateComponents 2000 0.016 (ex_scene\<lparr>editorMode := ''stop''\<rparr>)) = Inr ()"
    by (simp add: ex_scene_fields tick_defs Let_def)
  show ?thesis
    using a b c C4_update_dispatch [OF a] C4_update_dispatch [OF b] C4_update_dispatch [OF c]
    by (simp add: ex_scene_fields due_updates_def due_components_def has_update_def)
qed

text \<open>
  Claim C5, the claim as stated: an error thrown inside the \<^verbatim>\<open>update\<close> of a component of any
  type is caught and the remaining components are still updated. The error of the plugin
  component of \<^verbatim>\<open>e1\<close> leaves \<^verbatim>\<open>updateComponents\<close>, and of the three calls due only the first
  is made.
\<close>

theorem C5_native_error_escapes_counterexample:
  "fst (updateComponents 2000 0.016 (ex_boom\<lparr>editorMode := ''pause''\<rparr>)) = Inl (UpdateError ''e1'' ''Boom'')
   \<and> due_updates False 0.016 (entityComponents (ex_boom\<lparr>editorMode := ''pause''\<rparr>)) =
       [(''e1'', ''Boom'', 0.016), (''e1'', ''Collider'', 0.016), (''e2'', ''Collider'', 0.016)]
   \<and> update_calls (trace (snd (updateComponents 2000 0.016 (ex_boom\<lparr>editorMode := ''pause''\<rparr>)))) =
       [(''e1'', ''Boom'', 0.016)]"
  by (simp add: ex_boom_fields tick_defs)

text \<open>
  Claim C5, as amended. An error thrown by the user \<^verbatim>\<open>update\<close> hook of a script is caught
  inside \<^verbatim>\<open>Script.update\<close> and logged, and plays no part in what follows. Every other error
  thrown inside a component's \<^verbatim>\<open>update\<close> leaves \<^verbatim>\<open>updateComponents\<close>: the \<^verbatim>\<open>update\<close> of a
  component of another class that throws, and \<^verbatim>\<open>Script.update\<close> itself when the context of
  the script refuses the refresh made before the \<^verbatim>\<open>try\<close>. The calls of a tick are those
  due in the mode, in the order of the maps, up to and including the first one that lets an
  error out; the components after it are not updated in that tick. The tick returns if and
  only if no component that is due lets an error out.
\<close>

theorem C5_tick_ends_at_first_escaping_error:
  "update_calls (trace (snd (updateComponents now dt s))) =
     update_calls (trace s) @
     map (\<lambda>(e, name, c). (e, name, dt))
       (up_to_first (\<lambda>(e, name, c). update_raises s c)
          (due_list (editorMode s = ''play'') (entityComponents s)))
   \<and> (fst (updateComponents now dt s) = Inr () \<longleftrightarrow>
        (\<forall>(e, name, c) \<in> set (due_list (editorMode s = ''play'') (entityComponents s)).
           \<not> update_raises s c))
   \<and> (fst (Script_update now dt s sc) = None \<longleftrightarrow> \<not> script_update_raises s sc)
   \<and> (HookCalled (entity sc) HUpdate \<in> set (snd (snd (Script_update now dt s sc)))
        \<longleftrightarrow> reached_update_hook s sc \<noteq> None)
   \<and> (reached_update_hook s sc = Some Throws \<longrightarrow>
        fst (Script_update now dt s sc) = None
        \<and> snd (snd (Script_update now dt s sc))
            = [HookCalled (entity sc) HUpdate, ConsoleError (UpdateFailed (entity sc))])"
  using updateComponents_trace [of now dt s] Script_update_raises [of now dt s sc]
    Script_update_hook_called [of sc now dt s] Script_update_hook_throws [of s sc now dt]
  by blast

theorem C5_tick_ends_at_first_escaping_error_witness:
  "fst (updateComponents 2000 0.016 (ex_scene\<lparr>editorMode := ''play''\<rparr>)) = Inr ()
   \<and> update_calls (trace (snd (updateComponents 2000 0.016 (ex_scene\<lparr>editorMode := ''play''\<rparr>)))) =
       [(''e1'', ''Script'', 0.016), (''e1'', ''Collider'', 0.016), (''e2'', ''Light'', 0.016)]
   \<and> count_list (trace (snd (updateComponents 2000 0.016 (ex_scene\<lparr>editorMode := ''play''\<rparr>))))
        (ConsoleError (UpdateFailed ''e1'')) = 1
   \<and> (case getComponent ''e1'' ''Script'' ex_scene of
         Some (Script sc) \<Rightarrow> reached_update_hook (ex_scene\<lparr>editorMode := ''play''\<rparr>) sc = Some Throws
       | _ \<Rightarrow> False)
   \<and> fst (updateComponents 2000 0.016 ex_rebound_playing) = Inl (ContextError ''e1'')
   \<and> map (\<lambda>(e, name, c). (e, name)) (due_list True (entityComponents ex_rebound_playing)) =
       [(''e1'', ''Script''), (''e1'', ''Collider''), (''e2'', ''Script'')]
   \<and> update_calls (trace (snd (updateComponents 2000 0.016 ex_rebound_playing))) =
       [(''e1'', ''Script'', 0.016)]"
proof -
  let ?sc = "\<lparr>s_ref = 0, entity = ''e1'', scriptName = [],
                   scriptCode = ''function update(){throw 1}'',
                   scriptInstance = Some \<lparr>ctx = Some \<lparr>gameObject = Some ''e1'', time_deltaTime = 0,
                                                  time_time = 0, time_writes = Returns,
                                                  time_getTime = Returns, object_writes = Returns\<rparr>,
                                           inst_start = None, inst_update = Some Throws,
                                           inst_onDestroy = None\<rparr>,
                   enabled = True, variables = []\<rparr>"
  have a: "fst (updateComponents 2000 0.016 (ex_scene\<lparr>editorMode := ''play''\<rparr>)) = Inr ()"
    "count_list (trace (snd (updateComponents 2000 0.016 (ex_scene\<lparr>editorMode := ''play''\<rparr>))))
        (ConsoleError (UpdateFailed ''e1'')) = 1"
    "getComponent ''e1'' ''Script'' ex_scene = Some (Script ?sc)"
    "reached_update_hook (ex_scene\<lparr>editorMode := ''play''\<rparr>) ?sc = Some Throws"
    by (simp_all add: ex_scene_fields tick_defs Let_def getComponent_def reached_update_hook_def
          script_update_raises_def)
  have b: "fst (updateComponents 2000 0.016 ex_rebound_playing) = Inl (ContextError ''e1'')"
    by (simp add: ex_rebound_playing_def eval_defs tick_defs)
  have c: "map (\<lambda>(e, name, c). (e, name)) (due_list True (entityComponents ex_rebound_playing)) =
       [(''e1'', ''Script''), (''e1'', ''Collider''), (''e2'', ''Script'')]"
    by (simp add: ex_rebound_playing_def eval_defs due_list_def)
  have d: "due_list True (entityComponents (ex_scene\<lparr>editorMode := ''play''\<rparr>)) =
       [(''e1'', ''Script'', Script ?sc),
        (''e1'', ''Collider'', Native \<lparr>n_ref = 1, n_entity = ''e1'', n_data = Obj empty_data,
                                       n_update = Some Returns, n_destroy = Some Returns\<rparr>),
        (''e2'', ''Light'', Native \<lparr>n_ref = 2, n_entity = ''e2'', n_data = Obj empty_data,
                                    n_update = Some Returns, n_destroy = Some Returns\<rparr>)]"
    by (simp add: ex_scene_fields due_list_def has_update_def)
  have e: "map (\<lambda>(e, name, c). (e, name, 0.016 :: real))
             (up_to_first (\<lambda>(e, name, c). update_raises ex_rebound_playing c)
                (due_list True (entityComponents ex_rebound_playing))) = [(''e1'', ''Script'', 0.016)]"
    by (simp add: ex_rebound_playing_def eval_defs due_list_def update_raises_def
          script_update_raises_def)
  show ?thesis
    using C5_tick_ends_at_first_escaping_error
            [of 2000 "0.016" "ex_scene\<lparr>editorMode := ''play''\<rparr>" ?sc]
          C5_tick_ends_at_first_escaping_error [of 2000 "0.016" ex_rebound_playing ?sc]
          a b c d e
    by (simp add: ex_scene_fields ex_rebound_playing_fields update_raises_def
          script_update_raises_def)
qed

section \<open>The lifecycle and the tick keep the store well formed\<close>

lemma start_entity_distinct:
  "distinct (map fst comps) \<Longrightarrow> distinct (map fst (fst (snd (start_entity e comps))))"
  by (auto simp: start_entity_def distinct_update split: option.splits component.splits)

lemma reset_entity_distinct:
  "distinct (map fst comps) \<Longrightarrow> distinct (map fst (snd (reset_entity e comps)))"
  by (auto simp: reset_entity_def distinct_update split: option.splits component.splits)

lemma start_entities_keys: "map fst (fst (snd (start_entities store))) = map fst store"
proof (induction store)
  case Nil
  show ?case by simp
next
  case (Cons p store)
  obtain e comps where p: "p = (e, comps)" by (cases p)
  obtain r cs evs where c: "start_entity e comps = (r, cs, evs)"
    by (cases "start_entity e comps")
  obtain r2 st2 evs2 where f: "start_entities store = (r2, st2, evs2)"
    by (cases "start_entities store")
  from Cons f have "map fst st2 = map fst store" by simp
  with p c f show ?case by (cases r) simp_all
qed

lemma start_entities_wf:
  "wf_entries store \<Longrightarrow> wf_entries (fst (snd (start_entities store)))"
proof (induction store)
  case Nil
  then show ?case by simp
next
  case (Cons p store)
  obtain e comps where p: "p = (e, comps)" by (cases p)
  obtain r cs evs where c: "start_entity e comps = (r, cs, evs)"
    by (cases "start_entity e comps")
  obtain r2 st2 evs2 where f: "start_entities store = (r2, st2, evs2)"
    by (cases "start_entities store")
  from Cons.prems p have w: "wf_entries store" and d: "distinct (map fst comps)"
    and n: "e \<notin> fst ` set store"
    by (auto simp: wf_entries_def)
  from start_entity_distinct [OF d, of e] c have d2: "distinct (map fst cs)" by simp
  from start_entities_keys [of store] f have "map fst st2 = map fst store" by simp
  then have n2: "e \<notin> fst ` set st2" using n by (metis list.set_map)
  from Cons.IH [OF w] f have w2: "wf_entries st2" by simp
  show ?case
    using p c f d2 n n2 w w2 by (cases r) (auto simp: wf_entries_def)
qed

lemma reset_entities_keys: "map fst (snd (reset_entities store)) = map fst store"
proof (induction store)
  case Nil
  show ?case by simp
next
  case (Cons p store)
  obtain e comps where p: "p = (e, comps)" by (cases p)
  obtain r cs where c: "reset_entity e comps = (r, cs)"
    by (cases "reset_entity e comps")
  obtain r2 st2 where f: "reset_entities store = (r2, st2)"
    by (cases "reset_entities store")
  from Cons f have "map fst st2 = map fst store" by simp
  with p c f show ?case by (cases r) simp_all
qed

lemma reset_entities_wf:
  "wf_entries store \<Longrightarrow> wf_entries (snd (reset_entities store))"
proof (induction store)
  case Nil
  then show ?case by simp
next
  case (Cons p store)
  obtain e comps where p: "p = (e, comps)" by (cases p)
  obtain r cs where c: "reset_entity e comps = (r, cs)"
    by (cases "reset_entity e comps")
  obtain r2 st2 where f: "reset_entities store = (r2, st2)"
    by (cases "reset_entities store")
  from Cons.prems p have w: "wf_entries store" and d: "distinct (map fst comps)"
    and n: "e \<notin> fst ` set store"
    by (auto simp: wf_entries_def)
  from reset_entity_distinct [OF d, of e] c have d2: "distinct (map fst cs)" by simp
  from reset_entities_keys [of store] f have "map fst st2 = map fst store" by simp
  then have n2: "e \<notin> fst ` set st2" using n by (metis list.set_map)
  from Cons.IH [OF w] f have w2: "wf_entries st2" by simp
  show ?case
    using p c f d2 n n2 w w2 by (cases r) (auto simp: wf_entries_def)
qed

lemma lifecycle_wf:
  assumes "store_wf s"
  shows "store_wf (snd (startScriptExecution now s))"
    and "store_wf (stopScriptExecution s)"
    and "store_wf (snd (resetScriptExecution s))"
    and "store_wf (pauseScriptExecution now s)"
    and "store_wf (resumeScriptExecution now s)"
proof -
  from assms have w: "wf_entries (entityComponents s)" by (simp add: store_wf_entries)
  show "store_wf (snd (startScriptExecution now s))"
    using start_entities_wf [OF w]
    by (cases "start_entities (entityComponents s)")
       (simp add: startScriptExecution_def store_wf_entries)
  show "store_wf (snd (resetScriptExecution s))"
    using reset_entities_wf [OF w]
    by (cases "reset_entities (entityComponents s)")
       (simp add: resetScriptExecution_def store_wf_entries)
  show "store_wf (stopScriptExecution s)"
    and "store_wf (pauseScriptExecution now s)"
    and "store_wf (resumeScriptExecution now s)"
    using assms
    by (simp_all add: store_wf_def stopScriptExecution_def pauseScriptExecution_def
          resumeScriptExecution_def)
qed

lemma forEach_component_keys:
  "map fst (fst (snd (forEach_component sel now dt s e comps))) = map fst comps"
proof (induction comps)
  case Nil
  then show ?case by simp
next
  case (Cons p comps)
  obtain name c where p: "p = (name, c)" by (cases p)
  obtain r c' evs where u: "component_update now dt s e name c = (r, c', evs)"
    by (cases "component_update now dt s e name c")
  obtain r2 cs2 evs2 where f: "forEach_component sel now dt s e comps = (r2, cs2, evs2)"
    by (cases "forEach_component sel now dt s e comps")
  from Cons.IH f have "map fst cs2 = map fst comps" by simp
  with p u f show ?case by (cases r) simp_all
qed

lemma forEach_entity_wf:
  "wf_entries store \<Longrightarrow> wf_entries (fst (snd (forEach_entity sel now dt s store)))"
proof (induction store)
  case Nil
  then show ?case by simp
next
  case (Cons p store)
  obtain e comps where p: "p = (e, comps)" by (cases p)
  obtain r cs evs where c: "forEach_component sel now dt s e comps = (r, cs, evs)"
    by (cases "forEach_component sel now dt s e comps")
  obtain r2 st2 evs2 where f: "forEach_entity sel now dt s store = (r2, st2, evs2)"
    by (cases "forEach_entity sel now dt s store")
  have k: "map fst cs = map fst comps"
    using forEach_component_keys [of sel now dt s e comps] c by simp
  have keys: "map fst (fst (snd (forEach_entity sel now dt s store))) = map fst store" for store
  proof (induction store)
    case Nil
    then show ?case by simp
  next
    case (Cons q store)
    obtain e' comps' where q: "q = (e', comps')" by (cases q)
    obtain r' cs' evs' where c': "forEach_component sel now dt s e' comps' = (r', cs', evs')"
      by (cases "forEach_component sel now dt s e' comps'")
    obtain r3 st3 evs3 where f': "forEach_entity sel now dt s store = (r3, st3, evs3)"
      by (cases "forEach_entity sel now dt s store")
    from Cons f' have "map fst st3 = map fst store" by simp
    with q c' f' show ?case by (cases r') simp_all
  qed
  from Cons.prems p have w: "wf_entries store" and d: "distinct (map fst comps)"
    and n: "e \<notin> fst ` set store"
    by (auto simp: wf_entries_def)
  from keys [of store] f have k2: "map fst st2 = map fst store" by simp
  then have n2: "e \<notin> fst ` set st2" using n by (metis list.set_map)
  from Cons.IH [OF w] f have w2: "wf_entries st2" by simp
  show ?case
    using p c f k d n n2 w w2 by (cases r) (auto simp: wf_entries_def)
qed

lemma run_updates_wf: "store_wf s \<Longrightarrow> store_wf (snd (run_updates sel now dt s))"
  using forEach_entity_wf [of "entityComponents s" sel now dt s]
  by (cases "forEach_entity sel now dt s (entityComponents s)")
     (simp add: run_updates_def store_wf_entries)

lemma updateComponents_wf: "store_wf s \<Longrightarrow> store_wf (snd (updateComponents now dt s))"
  by (simp add: updateComponents_def run_updates_wf)

end
